theory Spec2Isabelle
  imports Complex_Main "HOL-Library.Word"
begin

section \<open>The camera page: platform objects\<close>

text \<open>
  The script of \<^verbatim>\<open>src/routes/camera/+page.svelte\<close> keeps its state in module-level
  variables and drives browser objects: media streams, an audio element, audio contexts
  with their node graphs, an animation-frame loop. The browser objects live in a store
  (lists indexed by a reference), the script variables hold references into it, and every
  call on a browser object that a claim orders or counts is appended to a trace.

  The script is single-threaded. A handler runs to its end before the next one starts,
  and a promise it awaits or attaches callbacks to is settled before the next handler
  runs. Time does not pass: \<^verbatim>\<open>currentTime\<close> changes by assignment only. The delay is an
  integer number of milliseconds; the delay time and the level are exact reals where the
  script computes with floating-point numbers.
\<close>

type_synonym ref = nat

datatype track_kind = AudioTrack | VideoTrack

datatype track_state = Live | Ended

record track =
  kind :: track_kind
  readyState :: track_state

record media_stream =
  tracks :: "track list"

text \<open>An \<^verbatim>\<open>HTMLAudioElement\<close>; \<^verbatim>\<open>new Audio()\<close> gives \<open>new_audio\<close>.\<close>

record audio_el =
  srcObject :: "ref option"
  paused :: bool
  currentTime :: nat
  muted :: bool
  volume :: real

definition new_audio :: audio_el where
  "new_audio = \<lparr>srcObject = None, paused = True, currentTime = 0, muted = False, volume = 1\<rparr>"

record video_el =
  v_srcObject :: "ref option"
  v_paused :: bool

datatype ctx_state = Suspended | Running | Closed

datatype audio_node =
    DelayNode real
  | MediaStreamSource ref
  | MediaStreamDestination ref
  | AnalyserNode

text \<open>An \<^verbatim>\<open>AudioContext\<close>: its state, the nodes created on it and the
  \<^verbatim>\<open>connect\<close> calls made between them (indices into \<open>nodes\<close>).\<close>

record audio_context =
  cstate :: ctx_state
  nodes :: "audio_node list"
  connections :: "(nat \<times> nat) list"

definition new_context :: audio_context where
  "new_context = \<lparr>cstate = Running, nodes = [], connections = []\<rparr>"

text \<open>The value of the variable \<^verbatim>\<open>analyser\<close>: the context the node belongs to and
  its \<^verbatim>\<open>fftSize\<close>.\<close>

record analyser_node =
  an_context :: ref
  fftSize :: nat

record canvas =
  has2d :: bool
  bars :: "nat list"

text \<open>The calls on browser objects that the trace records.\<close>

datatype call =
    VideoPause
  | VideoSetSrc "ref option"
  | VideoPlay
  | AudioNew ref
  | AudioPause ref
  | AudioSeek ref nat
  | AudioSetSrc ref "ref option"
  | AudioPlay ref
  | TrackStop ref nat
  | CtxNew ref
  | CtxClose ref
  | GetUserMedia "string option"
  | RequestFrame nat
  | CancelFrame nat

text \<open>
  The script variables (lines 4--22), then the store of browser objects and the trace.
  \<open>None\<close> is \<^verbatim>\<open>undefined\<close>. \<open>scheduled\<close> is the animation-frame callback the
  browser still holds, \<open>frames\<close> the number of handles it has handed out.
\<close>

record page_state =
  videoElement :: "video_el option"
  audioContext :: "ref option"
  analyser :: "analyser_node option"
  stream :: "ref option"
  audioElement :: "ref option"
  isStreaming :: bool
  hasPermission :: bool
  errorMessage :: string
  micLevel :: real
  availableMics :: "string list"
  selectedMicId :: string
  audioEnabled :: bool
  audioDelay :: int
  canvasElement :: "canvas option"
  animationFrame :: "nat option"
  audios :: "audio_el list"
  streams :: "media_stream list"
  contexts :: "audio_context list"
  scheduled :: "nat option"
  frames :: nat
  trace :: "call list"

definition initial :: page_state where
  "initial = \<lparr>videoElement = None, audioContext = None, analyser = None, stream = None,
     audioElement = None, isStreaming = False, hasPermission = False, errorMessage = [],
     micLevel = 0, availableMics = [], selectedMicId = [], audioEnabled = False,
     audioDelay = 0, canvasElement = None, animationFrame = None,
     audios = [], streams = [], contexts = [], scheduled = None, frames = 0, trace = []\<rparr>"

subsection \<open>What the browser answers\<close>

text \<open>
  One \<open>env\<close> holds the answers of the browser during one handler: which globals exist
  (the \<^verbatim>\<open>typeof X !== 'undefined'\<close> tests), how \<^verbatim>\<open>getUserMedia\<close> and
  \<^verbatim>\<open>enumerateDevices\<close> settle, whether the promise of \<^verbatim>\<open>play()\<close> resolves, which
  Web Audio calls throw (\<open>throws e x\<close>: the call \<open>x\<close> throws whenever the handler makes
  it), and the bytes \<^verbatim>\<open>getByteFrequencyData\<close> writes.
\<close>

datatype error_name = NotAllowedError | NotFoundError | NotReadableError | OtherError

datatype gum_result = Granted | Rejected error_name

datatype api =
    NewAudioContext
  | CreateDelay
  | CreateMediaStreamSource
  | CreateMediaStreamDestination
  | CreateAnalyser

record env =
  has_navigator :: bool
  has_Audio :: bool
  has_AudioContext :: bool
  has_requestAnimationFrame :: bool
  has_cancelAnimationFrame :: bool
  getUserMedia_result :: gum_result
  enumerateDevices_result :: "string list option"
  play_resolves :: bool
  throws :: "api \<Rightarrow> bool"
  byteFrequencyData :: "nat \<Rightarrow> 8 word"

subsection \<open>Calls on browser objects\<close>

text \<open>Changing the object behind a reference. The references the script holds point
  into the store; on any other number \<open>upd\<close> changes nothing.\<close>

definition upd :: "ref \<Rightarrow> ('a \<Rightarrow> 'a) \<Rightarrow> 'a list \<Rightarrow> 'a list" where
  "upd r f xs = xs[r := f (xs ! r)]"

definition record_call :: "call \<Rightarrow> page_state \<Rightarrow> page_state" where
  "record_call c s = s\<lparr>trace := trace s @ [c]\<rparr>"

definition audio_pause :: "ref \<Rightarrow> page_state \<Rightarrow> page_state" where
  "audio_pause a s =
     record_call (AudioPause a) (s\<lparr>audios := upd a (\<lambda>x. x\<lparr>paused := True\<rparr>) (audios s)\<rparr>)"

definition audio_setCurrentTime :: "ref \<Rightarrow> nat \<Rightarrow> page_state \<Rightarrow> page_state" where
  "audio_setCurrentTime a t s =
     record_call (AudioSeek a t)
       (s\<lparr>audios := upd a (\<lambda>x. x\<lparr>currentTime := t\<rparr>) (audios s)\<rparr>)"

definition audio_setSrcObject :: "ref \<Rightarrow> ref option \<Rightarrow> page_state \<Rightarrow> page_state" where
  "audio_setSrcObject a src s =
     record_call (AudioSetSrc a src)
       (s\<lparr>audios := upd a (\<lambda>x. x\<lparr>srcObject := src\<rparr>) (audios s)\<rparr>)"

text \<open>
  \<^verbatim>\<open>play()\<close> returns a promise. When it resolves the element is playing; when it is
  rejected (the autoplay policy refuses) the element stays as it was. The callbacks the
  script attaches only assign \<^verbatim>\<open>audioEnabled\<close>, which nothing else in the same handler
  reads afterwards, so the handlers below run them where the promise is created.
\<close>

definition audio_play :: "env \<Rightarrow> ref \<Rightarrow> page_state \<Rightarrow> page_state" where
  "audio_play e a s =
     record_call (AudioPlay a)
       (if play_resolves e
        then s\<lparr>audios := upd a (\<lambda>x. x\<lparr>paused := False\<rparr>) (audios s)\<rparr>
        else s)"

definition stop_track :: "track \<Rightarrow> track" where
  "stop_track t = t\<lparr>readyState := Ended\<rparr>"

text \<open>\<^verbatim>\<open>stream.getTracks().forEach((track) => track.stop())\<close>\<close>

definition stop_tracks :: "ref \<Rightarrow> page_state \<Rightarrow> page_state" where
  "stop_tracks st s =
     s\<lparr>streams := upd st (\<lambda>m. m\<lparr>tracks := map stop_track (tracks m)\<rparr>) (streams s),
       trace := trace s @ map (TrackStop st) [0..<length (tracks (streams s ! st))]\<rparr>"

text \<open>
  \<^verbatim>\<open>audioContext.close()\<close> never throws: on a context that is already closed it returns
  a rejected promise and changes nothing. The context counts as closed as soon as the call
  returns.
\<close>

definition ctx_close :: "ref \<Rightarrow> page_state \<Rightarrow> page_state" where
  "ctx_close c s =
     record_call (CtxClose c)
       (s\<lparr>contexts := upd c (\<lambda>x. x\<lparr>cstate := Closed\<rparr>) (contexts s)\<rparr>)"

text \<open>\<^verbatim>\<open>audioContext = new AudioContext()\<close>; \<open>Inl\<close> is the state at a throw.\<close>

definition ctx_new :: "env \<Rightarrow> page_state \<Rightarrow> page_state + page_state" where
  "ctx_new e s =
     (if throws e NewAudioContext then Inl s
      else Inr (record_call (CtxNew (length (contexts s)))
             (s\<lparr>contexts := contexts s @ [new_context],
                audioContext := Some (length (contexts s))\<rparr>)))"

definition add_node :: "ref \<Rightarrow> audio_node \<Rightarrow> page_state \<Rightarrow> page_state" where
  "add_node c n s =
     s\<lparr>contexts := upd c (\<lambda>x. x\<lparr>nodes := nodes x @ [n]\<rparr>) (contexts s)\<rparr>"

definition connect :: "ref \<Rightarrow> nat \<Rightarrow> nat \<Rightarrow> page_state \<Rightarrow> page_state" where
  "connect c a b s =
     s\<lparr>contexts := upd c (\<lambda>x. x\<lparr>connections := connections x @ [(a, b)]\<rparr>) (contexts s)\<rparr>"

definition then_try ::
  "page_state + page_state \<Rightarrow> (page_state \<Rightarrow> page_state + page_state) \<Rightarrow> page_state + page_state"
where
  "then_try r f = (case r of Inl s \<Rightarrow> Inl s | Inr s \<Rightarrow> f s)"

section \<open>The handlers of the page script\<close>

text \<open>\<^verbatim>\<open>getErrorMessage\<close> (lines 325--335).\<close>

definition getErrorMessage :: "error_name \<Rightarrow> string" where
  "getErrorMessage err =
     (if err = NotAllowedError then
        ''Camera and microphone access was denied. Please allow access in your browser settings.''
      else if err = NotFoundError then
        ''No camera or microphone found. Please connect a device and try again.''
      else if err = NotReadableError then
        ''Camera or microphone is already in use by another application.''
      else ''Error accessing camera or microphone. Please check your device permissions.'')"

text \<open>\<^verbatim>\<open>getAudioDevices\<close> (lines 54--66); the answer lists the ids of the audio inputs.\<close>

definition getAudioDevices :: "env \<Rightarrow> page_state \<Rightarrow> page_state" where
  "getAudioDevices e s =
     (if \<not> has_navigator e then s
      else case enumerateDevices_result e of
        None \<Rightarrow> s
      | Some devices \<Rightarrow>
          (case devices of
             [] \<Rightarrow> s\<lparr>availableMics := devices\<rparr>
           | d # _ \<Rightarrow>
               if selectedMicId s = [] then s\<lparr>availableMics := devices, selectedMicId := d\<rparr>
               else s\<lparr>availableMics := devices\<rparr>))"

text \<open>
  \<^verbatim>\<open>setupAudioPlayback\<close> (lines 99--122). Every call creates a fresh element and
  overwrites the variable; the element the variable held before is not touched. No call
  in the \<^verbatim>\<open>try\<close> block throws, so its \<^verbatim>\<open>catch\<close> (which only logs) has no branch.
\<close>

definition setupAudioPlayback :: "env \<Rightarrow> ref \<Rightarrow> page_state \<Rightarrow> page_state" where
  "setupAudioPlayback e mediaStream s =
     (if \<not> has_Audio e then s
      else
        let a = length (audios s);
            s1 = record_call (AudioNew a) (s\<lparr>audios := audios s @ [new_audio], audioElement := Some a\<rparr>);
            s2 = audio_setSrcObject a (Some mediaStream) s1;
            s3 = s2\<lparr>audios := upd a (\<lambda>x. x\<lparr>muted := False, volume := 0.8\<rparr>) (audios s2)\<rparr>;
            s4 = audio_play e a s3
        in s4\<lparr>audioEnabled := play_resolves e\<rparr>)"

text \<open>
  The \<^verbatim>\<open>try\<close> block of \<^verbatim>\<open>updateAudioDelay\<close>, lines 170--186, on the context \<open>c\<close>
  that line 168 created: \<open>Inl\<close> is the state at a throw, \<open>Inr\<close> the state at the end.
  The delay node enters the graph with the delay time that line 172 assigns to it.
\<close>

definition delay_nodes :: "env \<Rightarrow> ref \<Rightarrow> ref \<Rightarrow> ref \<Rightarrow> page_state \<Rightarrow> page_state + page_state" where
  "delay_nodes e a st c s =
     (if throws e CreateDelay then Inl s
      else
        let delayNode = length (nodes (contexts s ! c));
            s1 = add_node c (DelayNode (real_of_int (audioDelay s) / 1000)) s
        in if throws e CreateMediaStreamSource then Inl s1
      else
        let source = length (nodes (contexts s1 ! c));
            s2 = add_node c (MediaStreamSource st) s1
        in if throws e CreateMediaStreamDestination then Inl s2
      else
        let destination = length (nodes (contexts s2 ! c));
            out = length (streams s2);
            s3 = add_node c (MediaStreamDestination out)
                   (s2\<lparr>streams := streams s2 @ [\<lparr>tracks = [\<lparr>kind = AudioTrack, readyState = Live\<rparr>]\<rparr>]\<rparr>);
            s4 = connect c source delayNode s3;
            s5 = connect c delayNode destination s4;
            s6 = connect c source destination s5
        in Inr (audio_setSrcObject a (Some out) s6))"

text \<open>Lines 159--168, then the nodes. A method call on \<^verbatim>\<open>undefined\<close> throws.\<close>

definition delay_graph :: "env \<Rightarrow> ref \<Rightarrow> ref \<Rightarrow> page_state \<Rightarrow> page_state + page_state" where
  "delay_graph e a st s =
     then_try (if audioContext s = None then ctx_new e s else Inr s)
       (\<lambda>s1. case audioContext s1 of
          None \<Rightarrow> Inl s1
        | Some old \<Rightarrow>
            then_try
              (ctx_new e (if cstate (contexts s1 ! old) \<noteq> Closed then ctx_close old s1 else s1))
              (\<lambda>s2. case audioContext s2 of
                 None \<Rightarrow> Inl s2
               | Some c \<Rightarrow> delay_nodes e a st c s2))"

text \<open>\<^verbatim>\<open>updateAudioDelay\<close> (lines 149--203).\<close>

definition updateAudioDelay :: "env \<Rightarrow> page_state \<Rightarrow> page_state" where
  "updateAudioDelay e s =
     (case audioElement s of
        None \<Rightarrow> s
      | Some a \<Rightarrow>
     (case stream s of
        None \<Rightarrow> s
      | Some st \<Rightarrow>
          let s1 = audio_setCurrentTime a 0 (audio_pause a s);
              s2 = (if audioDelay s1 > 0 \<and> has_AudioContext e then
                      (case delay_graph e a st s1 of
                         Inr s' \<Rightarrow> s'
                       | Inl s' \<Rightarrow> audio_setSrcObject a (Some st) s')
                    else audio_setSrcObject a (Some st) s1)
          in if audioEnabled s2 then audio_play e a s2 else s2))"

text \<open>\<^verbatim>\<open>toggleAudio\<close> (lines 124--147).\<close>

definition toggleAudio :: "env \<Rightarrow> page_state \<Rightarrow> page_state" where
  "toggleAudio e s =
     (case audioElement s of
        None \<Rightarrow> s
      | Some a \<Rightarrow>
     (case stream s of
        None \<Rightarrow> s
      | Some st \<Rightarrow>
          if audioEnabled s then
            (audio_setSrcObject a None (audio_setCurrentTime a 0 (audio_pause a s)))
              \<lparr>audioEnabled := False\<rparr>
          else
            (audio_play e a (updateAudioDelay e s))\<lparr>audioEnabled := play_resolves e\<rparr>))"

text \<open>
  \<^verbatim>\<open>setupAudioAnalyser\<close> (lines 205--216). It has no \<^verbatim>\<open>try\<close> of its own: a throw
  (\<open>Inl\<close>) reaches the \<^verbatim>\<open>catch\<close> of \<^verbatim>\<open>requestPermissions\<close>.
\<close>

definition setupAudioAnalyser :: "env \<Rightarrow> ref \<Rightarrow> page_state \<Rightarrow> page_state + page_state" where
  "setupAudioAnalyser e mediaStream s =
     (if \<not> has_AudioContext e then Inr s
      else
        then_try (if audioContext s = None then ctx_new e s else Inr s)
          (\<lambda>s1. case audioContext s1 of
             None \<Rightarrow> Inl s1
           | Some c \<Rightarrow>
               if throws e CreateMediaStreamSource then Inl s1
               else
                 let source = length (nodes (contexts s1 ! c));
                     s2 = add_node c (MediaStreamSource mediaStream) s1
                 in if throws e CreateAnalyser then Inl s2
               else
                 let an = length (nodes (contexts s2 ! c));
                     s3 = (add_node c AnalyserNode s2)
                            \<lparr>analyser := Some \<lparr>an_context = c, fftSize = 256\<rparr>\<rparr>
                 in Inr (connect c source an s3)))"

text \<open>
  \<^verbatim>\<open>requestPermissions\<close> (lines 68--97). Before the \<^verbatim>\<open>await\<close> the function only
  builds the constraints; the body after it runs when \<^verbatim>\<open>getUserMedia\<close> settles. A
  granted request yields a stream with a live audio and a live video track. An exception
  of \<^verbatim>\<open>setupAudioAnalyser\<close> has none of the three names \<^verbatim>\<open>getErrorMessage\<close> looks
  for.
\<close>

definition requestPermissions :: "env \<Rightarrow> page_state \<Rightarrow> page_state" where
  "requestPermissions e s =
     (if \<not> has_navigator e then s
      else
        let s0 = record_call
                   (GetUserMedia (if selectedMicId s \<noteq> [] then Some (selectedMicId s) else None)) s
        in case getUserMedia_result e of
          Rejected err \<Rightarrow> s0\<lparr>errorMessage := getErrorMessage err, hasPermission := False\<rparr>
        | Granted \<Rightarrow>
            let mediaStream = length (streams s0);
                s1 = s0\<lparr>streams := streams s0 @
                         [\<lparr>tracks = [\<lparr>kind = AudioTrack, readyState = Live\<rparr>,
                                     \<lparr>kind = VideoTrack, readyState = Live\<rparr>]\<rparr>],
                       stream := Some mediaStream, hasPermission := True, errorMessage := []\<rparr>;
                s2 = (case videoElement s1 of
                        None \<Rightarrow> s1
                      | Some v \<Rightarrow>
                          record_call (VideoSetSrc (Some mediaStream))
                            (s1\<lparr>videoElement := Some (v\<lparr>v_srcObject := Some mediaStream\<rparr>)\<rparr>));
                s3 = setupAudioPlayback e mediaStream s2
            in (case setupAudioAnalyser e mediaStream s3 of
                  Inr s4 \<Rightarrow> s4
                | Inl s4 \<Rightarrow>
                    s4\<lparr>errorMessage := getErrorMessage OtherError, hasPermission := False\<rparr>))"

text \<open>
  \<^verbatim>\<open>draw\<close>, the frame callback of \<^verbatim>\<open>startAudioLevelVisualization\<close> (lines 219--261).
  The canvas keeps the magnitudes of the bars drawn last; bin \<open>i\<close> of the data array is
  \<open>unat (byteFrequencyData e i)\<close>. The only analyser the script creates has
  \<^verbatim>\<open>fftSize\<close> 256, so \<open>bufferLength\<close> is 128 and the average divides by it.
\<close>

definition frequencyBinCount :: "analyser_node \<Rightarrow> nat" where
  "frequencyBinCount an = fftSize an div 2"

definition draw :: "env \<Rightarrow> page_state \<Rightarrow> page_state" where
  "draw e s =
     (case canvasElement s of
        None \<Rightarrow> s
      | Some cv \<Rightarrow>
     (case analyser s of
        None \<Rightarrow> s
      | Some an \<Rightarrow>
          if \<not> has2d cv then s
          else
            let bufferLength = frequencyBinCount an;
                dataArray = map (\<lambda>i. unat (byteFrequencyData e i)) [0..<bufferLength];
                average = real (sum_list dataArray) / real bufferLength;
                s1 = s\<lparr>micLevel := average / 255,
                       canvasElement := Some (cv\<lparr>bars := dataArray\<rparr>)\<rparr>
            in if has_requestAnimationFrame e then
                 record_call (RequestFrame (Suc (frames s1)))
                   (s1\<lparr>animationFrame := Some (Suc (frames s1)),
                       scheduled := Some (Suc (frames s1)), frames := Suc (frames s1)\<rparr>)
               else s1))"

definition startAudioLevelVisualization :: "env \<Rightarrow> page_state \<Rightarrow> page_state" where
  "startAudioLevelVisualization e s = draw e s"

text \<open>\<^verbatim>\<open>startStream\<close> (lines 266--272).\<close>

definition startStream :: "page_state \<Rightarrow> page_state" where
  "startStream s =
     (case stream s of
        None \<Rightarrow> s
      | Some st \<Rightarrow>
     (case videoElement s of
        None \<Rightarrow> s
      | Some v \<Rightarrow>
          s\<lparr>videoElement := Some (v\<lparr>v_srcObject := Some st, v_paused := False\<rparr>),
            isStreaming := True,
            trace := trace s @ [VideoSetSrc (Some st), VideoPlay]\<rparr>))"

text \<open>\<^verbatim>\<open>stopStream\<close> (lines 274--298).\<close>

definition stopStream :: "page_state \<Rightarrow> page_state" where
  "stopStream s =
     (let s1 = (case videoElement s of
                  None \<Rightarrow> s
                | Some v \<Rightarrow>
                    s\<lparr>videoElement := Some (v\<lparr>v_paused := True, v_srcObject := None\<rparr>),
                      trace := trace s @ [VideoPause, VideoSetSrc None]\<rparr>);
          s2 = (case audioElement s1 of
                  None \<Rightarrow> s1
                | Some a \<Rightarrow>
                    audio_setSrcObject a None (audio_setCurrentTime a 0 (audio_pause a s1)));
          s3 = (case stream s2 of
                  None \<Rightarrow> s2
                | Some st \<Rightarrow> stop_tracks st s2);
          s4 = (case audioContext s3 of
                  None \<Rightarrow> s3
                | Some c \<Rightarrow> (ctx_close c s3)\<lparr>audioContext := None\<rparr>)
      in s4\<lparr>isStreaming := False, audioEnabled := False, micLevel := 0\<rparr>)"

text \<open>\<^verbatim>\<open>switchMicrophone\<close> (lines 300--305).\<close>

definition switchMicrophone :: "env \<Rightarrow> page_state \<Rightarrow> page_state" where
  "switchMicrophone e s =
     (if stream s \<noteq> None then requestPermissions e (stopStream s) else s)"

text \<open>
  The callback of \<^verbatim>\<open>onDestroy\<close> (lines 36--45), without the fullscreen listener. A
  handle is a positive number, so \<^verbatim>\<open>animationFrame &&\<close> asks for a handle other than 0.
\<close>

definition onDestroy :: "env \<Rightarrow> page_state \<Rightarrow> page_state" where
  "onDestroy e s =
     (let s1 = stopStream s
      in case animationFrame s1 of
           None \<Rightarrow> s1
         | Some h \<Rightarrow>
             if h \<noteq> 0 \<and> has_cancelAnimationFrame e then
               record_call (CancelFrame h)
                 (s1\<lparr>scheduled := (if scheduled s1 = Some h then None else scheduled s1)\<rparr>)
             else s1)"

text \<open>The callback of \<^verbatim>\<open>onMount\<close> (lines 24--34), without the fullscreen listener.\<close>

definition onMount :: "env \<Rightarrow> page_state \<Rightarrow> page_state" where
  "onMount e s = startAudioLevelVisualization e (requestPermissions e (getAudioDevices e s))"

section \<open>The page as a transition system\<close>

text \<open>
  What the template binds: the buttons call \<^verbatim>\<open>requestPermissions\<close>, \<^verbatim>\<open>startStream\<close>,
  \<^verbatim>\<open>stopStream\<close> and \<^verbatim>\<open>toggleAudio\<close>; the microphone select assigns
  \<^verbatim>\<open>selectedMicId\<close> and calls \<^verbatim>\<open>switchMicrophone\<close>; the delay slider assigns
  \<^verbatim>\<open>audioDelay\<close> and calls \<^verbatim>\<open>updateAudioDelay\<close>; the browser runs the scheduled frame
  callback; rendering binds the canvas, and the video element while \<^verbatim>\<open>hasPermission\<close>
  holds. The template hides or disables some controls in some states; \<open>step\<close> lets every
  handler run in every state, so what holds of every \<open>reachable\<close> state holds of the page.
\<close>

datatype event =
    Mount
  | Destroy
  | EnableClicked
  | StartClicked
  | StopClicked
  | MicSelected string
  | DelayMoved int
  | AudioToggled
  | FrameDue
  | Rendered bool

definition render :: "bool \<Rightarrow> page_state \<Rightarrow> page_state" where
  "render ctx2d s =
     s\<lparr>canvasElement := (case canvasElement s of
                            None \<Rightarrow> Some \<lparr>has2d = ctx2d, bars = []\<rparr>
                          | Some cv \<Rightarrow> Some cv),
       videoElement := (if hasPermission s then
                          (case videoElement s of
                             None \<Rightarrow> Some \<lparr>v_srcObject = None, v_paused = True\<rparr>
                           | Some v \<Rightarrow> Some v)
                        else None)\<rparr>"

fun step :: "env \<Rightarrow> event \<Rightarrow> page_state \<Rightarrow> page_state" where
  "step e Mount s = onMount e s"
| "step e Destroy s = onDestroy e s"
| "step e EnableClicked s = requestPermissions e s"
| "step e StartClicked s = startStream s"
| "step e StopClicked s = stopStream s"
| "step e (MicSelected d) s = switchMicrophone e (s\<lparr>selectedMicId := d\<rparr>)"
| "step e (DelayMoved d) s = updateAudioDelay e (s\<lparr>audioDelay := d\<rparr>)"
| "step e AudioToggled s = toggleAudio e s"
| "step e FrameDue s =
     (case scheduled s of None \<Rightarrow> s | Some h \<Rightarrow> draw e (s\<lparr>scheduled := None\<rparr>))"
| "step e (Rendered ctx2d) s = render ctx2d s"

inductive reachable :: "page_state \<Rightarrow> bool" where
  at_start: "reachable initial"
| after_step: "reachable s \<Longrightarrow> reachable (step e ev s)"

section \<open>What the claims speak about\<close>

text \<open>A browser in which every global exists, every request is granted, nothing throws
  and the analyser reads silence.\<close>

definition env_ok :: env where
  "env_ok = \<lparr>has_navigator = True, has_Audio = True, has_AudioContext = True,
     has_requestAnimationFrame = True, has_cancelAnimationFrame = True,
     getUserMedia_result = Granted, enumerateDevices_result = Some [''mic-a'', ''mic-b''],
     play_resolves = True, throws = (\<lambda>_. False), byteFrequencyData = (\<lambda>_. 0)\<rparr>"

text \<open>The same browser with an autoplay policy that rejects \<^verbatim>\<open>play()\<close>.\<close>

definition env_blocked :: env where
  "env_blocked = env_ok\<lparr>play_resolves := False\<rparr>"

text \<open>The calls a handler made: what it appended to the trace.\<close>

definition calls_of :: "page_state \<Rightarrow> page_state \<Rightarrow> call list" where
  "calls_of s s' = drop (length (trace s)) (trace s')"

text \<open>The state without its trace: the script variables and the browser objects.\<close>

definition untraced :: "page_state \<Rightarrow> page_state" where
  "untraced s = s\<lparr>trace := []\<rparr>"

text \<open>An audible path: an audio element that is playing a stream.\<close>

definition active_playback :: "audio_el \<Rightarrow> bool" where
  "active_playback a = (\<not> paused a \<and> srcObject a \<noteq> None)"

definition active_playbacks :: "page_state \<Rightarrow> audio_el list" where
  "active_playbacks s = filter active_playback (audios s)"

text \<open>The contexts that are not closed.\<close>

definition live_contexts :: "page_state \<Rightarrow> ref list" where
  "live_contexts s =
     filter (\<lambda>c. cstate (contexts s ! c) \<noteq> Closed) [0..<length (contexts s)]"

text \<open>
  Reading a trace from a moment at which \<open>l\<close> is the live context, if any:
  \<open>one_live\<close> says that no context is created while another is live,
  \<open>live_after\<close> gives the live context at the end.
\<close>

fun one_live :: "ref option \<Rightarrow> call list \<Rightarrow> bool" where
  "one_live l [] = True"
| "one_live l (CtxNew c # cs) = (l = None \<and> one_live (Some c) cs)"
| "one_live l (CtxClose c # cs) = one_live (if l = Some c then None else l) cs"
| "one_live l (_ # cs) = one_live l cs"

fun live_after :: "ref option \<Rightarrow> call list \<Rightarrow> ref option" where
  "live_after l [] = l"
| "live_after l (CtxNew c # cs) = live_after (Some c) cs"
| "live_after l (CtxClose c # cs) = live_after (if l = Some c then None else l) cs"
| "live_after l (_ # cs) = live_after l cs"

text \<open>\<open>before x y cs\<close>: \<open>x\<close> occurs in \<open>cs\<close>, and \<open>y\<close> occurs after its first occurrence.\<close>

fun before :: "call \<Rightarrow> call \<Rightarrow> call list \<Rightarrow> bool" where
  "before x y [] = False"
| "before x y (c # cs) = (if c = x then y \<in> set cs else before x y cs)"

text \<open>Playback is stopped: the flag is off and the element, if there is one, is paused,
  rewound and detached.\<close>

definition playback_stopped :: "page_state \<Rightarrow> bool" where
  "playback_stopped s =
     (\<not> audioEnabled s \<and>
      (case audioElement s of
         None \<Rightarrow> True
       | Some a \<Rightarrow> paused (audios s ! a) \<and> currentTime (audios s ! a) = 0 \<and>
                   srcObject (audios s ! a) = None))"

text \<open>The frame the display shows: the level and the bars on the canvas.\<close>

definition frame :: "page_state \<Rightarrow> real \<times> nat list" where
  "frame s = (micLevel s, case canvasElement s of None \<Rightarrow> [] | Some cv \<Rightarrow> bars cv)"

text \<open>Every track of a stream has ended.\<close>

definition all_ended :: "media_stream \<Rightarrow> bool" where
  "all_ended m = list_all (\<lambda>t. readyState t = Ended) (tracks m)"

text \<open>The calls that create or close a context.\<close>

fun is_ctx :: "call \<Rightarrow> bool" where
  "is_ctx (CtxNew c) = True"
| "is_ctx (CtxClose c) = True"
| "is_ctx _ = False"

text \<open>The context the variable refers to, unless it is closed.\<close>

definition live_ref :: "page_state \<Rightarrow> ref option" where
  "live_ref s =
     (case audioContext s of
        None \<Rightarrow> None
      | Some c \<Rightarrow> if cstate (contexts s ! c) = Closed then None else Some c)"

text \<open>
  The discipline of the processing contexts: the variable refers to a context of the
  store; every context that is not closed is the one the variable refers to; and the
  trace agrees: no context was created while another was live, and the context live at
  its end is the referenced one.
\<close>

definition ctx_inv :: "page_state \<Rightarrow> bool" where
  "ctx_inv s =
     ((\<forall>c. audioContext s = Some c \<longrightarrow> c < length (contexts s)) \<and>
      (\<forall>c. c < length (contexts s) \<and> cstate (contexts s ! c) \<noteq> Closed \<longrightarrow> audioContext s = Some c) \<and>
      one_live None (trace s) \<and> live_after None (trace s) = live_ref s)"

text \<open>Two states with the same context variable, the same context states and the same
  context calls in their traces.\<close>

definition ctx_same :: "page_state \<Rightarrow> page_state \<Rightarrow> bool" where
  "ctx_same s s' =
     (audioContext s' = audioContext s \<and> length (contexts s') = length (contexts s) \<and>
      (\<forall>c. cstate (contexts s' ! c) = cstate (contexts s ! c)) \<and>
      filter is_ctx (trace s') = filter is_ctx (trace s))"

text \<open>While no analyser is set the display shows level 0 and no bar.\<close>

definition display_inv :: "page_state \<Rightarrow> bool" where
  "display_inv s = (analyser s = None \<longrightarrow> frame s = (0, []))"

text \<open>A browser whose user denies access, and the page mounted on it.\<close>

definition env_denied :: env where
  "env_denied = env_ok\<lparr>getUserMedia_result := Rejected NotAllowedError\<rparr>"

definition denied :: page_state where
  "denied = step env_denied Mount (step env_denied (Rendered True) initial)"

text \<open>The state a call sequence ends in, thrown or not.\<close>

definition state_of :: "page_state + page_state \<Rightarrow> page_state" where
  "state_of r = (case r of Inl x \<Rightarrow> x | Inr x \<Rightarrow> x)"

text \<open>
  What the Web Audio call sequences and the calls on the audio element leave alone:
  the variables for the element and the stream, the enabled flag, the delay, the level,
  the canvas, the number of audio elements, and an analyser once it is set.
\<close>

definition vars_kept :: "page_state \<Rightarrow> page_state \<Rightarrow> bool" where
  "vars_kept s s' =
     (audioElement s' = audioElement s \<and> stream s' = stream s \<and>
      audioEnabled s' = audioEnabled s \<and> audioDelay s' = audioDelay s \<and>
      micLevel s' = micLevel s \<and> canvasElement s' = canvasElement s \<and>
      (analyser s \<noteq> None \<longrightarrow> analyser s' \<noteq> None) \<and>
      length (audios s') = length (audios s))"

text \<open>Two states to try the theorems on: the page after a granted request, with
  autoplay allowed and with autoplay blocked.\<close>

definition granted :: page_state where
  "granted = step env_ok EnableClicked initial"

definition blocked :: page_state where
  "blocked = step env_blocked EnableClicked initial"

text \<open>The first of them after the stop button.\<close>

definition stopped :: page_state where
  "stopped = step env_ok StopClicked granted"

text \<open>The first of them after the audio toggle (monitoring muted, everything else still
  running), and the stopped page after the audio toggle (monitoring enabled again, with
  no processing context referenced).\<close>

definition muted :: page_state where
  "muted = step env_ok AudioToggled granted"


text \<open>Everything \<^verbatim>\<open>stopStream\<close> releases is released already: playback is stopped, the
  video is paused and detached, every track of the stream has ended, no processing context
  is referenced, and the streaming flag and the level are reset.\<close>

definition fully_stopped :: "page_state \<Rightarrow> bool" where
  "fully_stopped s =
     (playback_stopped s \<and>
      (case videoElement s of None \<Rightarrow> True | Some v \<Rightarrow> v_paused v \<and> v_srcObject v = None) \<and>
      (case stream s of None \<Rightarrow> True | Some st \<Rightarrow> all_ended (streams s ! st)) \<and>
      audioContext s = None \<and> \<not> isStreaming s \<and> micLevel s = 0)"

section \<open>Facts about the store\<close>

lemma length_upd [simp]: "length (upd r f xs) = length xs"
  by (simp add: upd_def)

lemma nth_upd: "upd r f xs ! i = (if i = r \<and> r < length xs then f (xs ! r) else xs ! i)"
  by (cases "r < length xs") (auto simp: upd_def nth_list_update list_update_beyond not_less)

lemma upd_upd [simp]: "upd r f (upd r g xs) = upd r (\<lambda>x. f (g x)) xs"
  by (cases "r < length xs") (simp_all add: upd_def list_update_beyond not_less)

lemma upd_same: "f (xs ! r) = xs ! r \<Longrightarrow> upd r f xs = xs"
  by (simp add: upd_def)

lemma audio_el_same [simp]:
  "paused x \<Longrightarrow> x\<lparr>paused := True\<rparr> = x"
  "currentTime x = 0 \<Longrightarrow> x\<lparr>currentTime := 0\<rparr> = x"
  "srcObject x = None \<Longrightarrow> x\<lparr>srcObject := None\<rparr> = x"
  by (cases x; simp)+

lemma stop_track_idem [simp]: "stop_track (stop_track t) = stop_track t"
  by (simp add: stop_track_def)

lemma video_same:
  "v_paused v \<Longrightarrow> v_srcObject v = None \<Longrightarrow> v\<lparr>v_paused := True, v_srcObject := None\<rparr> = v"
  by (cases v) simp

lemma ended_same: "readyState t = Ended \<Longrightarrow> stop_track t = t"
  by (cases t) (simp add: stop_track_def)

lemma all_ended_same: "all_ended m \<Longrightarrow> m\<lparr>tracks := map stop_track (tracks m)\<rparr> = m"
  by (cases m) (simp add: all_ended_def list_all_iff map_idI ended_same)

lemma state_of_simps [simp]: "state_of (Inl x) = x" "state_of (Inr x) = x"
  by (simp_all add: state_of_def)

lemmas call_defs =
  record_call_def audio_pause_def audio_setCurrentTime_def audio_setSrcObject_def
  audio_play_def stop_tracks_def ctx_close_def ctx_new_def add_node_def connect_def
  then_try_def

lemmas handler_defs =
  getAudioDevices_def setupAudioPlayback_def delay_nodes_def delay_graph_def
  updateAudioDelay_def toggleAudio_def setupAudioAnalyser_def requestPermissions_def
  draw_def startAudioLevelVisualization_def startStream_def stopStream_def
  switchMicrophone_def onDestroy_def onMount_def render_def

lemmas concrete_defs =
  initial_def env_ok_def env_blocked_def new_audio_def new_context_def upd_def
  stop_track_def frequencyBinCount_def getErrorMessage_def

lemma granted_eq:
  "granted =
     \<lparr>videoElement = None, audioContext = Some 0,
      analyser = Some \<lparr>an_context = 0, fftSize = 256\<rparr>, stream = Some 0,
      audioElement = Some 0, isStreaming = False, hasPermission = True,
      errorMessage = [], micLevel = 0, availableMics = [], selectedMicId = [],
      audioEnabled = True, audioDelay = 0, canvasElement = None, animationFrame = None,
      audios = [\<lparr>srcObject = Some 0, paused = False, currentTime = 0, muted = False,
                 volume = 4 / 5\<rparr>],
      streams = [\<lparr>tracks = [\<lparr>kind = AudioTrack, readyState = Live\<rparr>,
                            \<lparr>kind = VideoTrack, readyState = Live\<rparr>]\<rparr>],
      contexts = [\<lparr>cstate = Running, nodes = [MediaStreamSource 0, AnalyserNode],
                   connections = [(0, 1)]\<rparr>],
      scheduled = None, frames = 0,
      trace = [GetUserMedia None, AudioNew 0, AudioSetSrc 0 (Some 0), AudioPlay 0, CtxNew 0]\<rparr>"
  by (simp add: granted_def handler_defs call_defs concrete_defs Let_def)

lemma blocked_eq:
  "blocked =
     \<lparr>videoElement = None, audioContext = Some 0,
      analyser = Some \<lparr>an_context = 0, fftSize = 256\<rparr>, stream = Some 0,
      audioElement = Some 0, isStreaming = False, hasPermission = True,
      errorMessage = [], micLevel = 0, availableMics = [], selectedMicId = [],
      audioEnabled = False, audioDelay = 0, canvasElement = None, animationFrame = None,
      audios = [\<lparr>srcObject = Some 0, paused = True, currentTime = 0, muted = False,
                 volume = 4 / 5\<rparr>],
      streams = [\<lparr>tracks = [\<lparr>kind = AudioTrack, readyState = Live\<rparr>,
                            \<lparr>kind = VideoTrack, readyState = Live\<rparr>]\<rparr>],
      contexts = [\<lparr>cstate = Running, nodes = [MediaStreamSource 0, AnalyserNode],
                   connections = [(0, 1)]\<rparr>],
      scheduled = None, frames = 0,
      trace = [GetUserMedia None, AudioNew 0, AudioSetSrc 0 (Some 0), AudioPlay 0, CtxNew 0]\<rparr>"
  by (simp add: blocked_def handler_defs call_defs concrete_defs Let_def)

lemma stopped_eq:
  "stopped =
     \<lparr>videoElement = None, audioContext = None,
      analyser = Some \<lparr>an_context = 0, fftSize = 256\<rparr>, stream = Some 0,
      audioElement = Some 0, isStreaming = False, hasPermission = True,
      errorMessage = [], micLevel = 0, availableMics = [], selectedMicId = [],
      audioEnabled = False, audioDelay = 0, canvasElement = None, animationFrame = None,
      audios = [\<lparr>srcObject = None, paused = True, currentTime = 0, muted = False,
                 volume = 4 / 5\<rparr>],
      streams = [\<lparr>tracks = [\<lparr>kind = AudioTrack, readyState = Ended\<rparr>,
                            \<lparr>kind = VideoTrack, readyState = Ended\<rparr>]\<rparr>],
      contexts = [\<lparr>cstate = Closed, nodes = [MediaStreamSource 0, AnalyserNode],
                   connections = [(0, 1)]\<rparr>],
      scheduled = None, frames = 0,
      trace = [GetUserMedia None, AudioNew 0, AudioSetSrc 0 (Some 0), AudioPlay 0, CtxNew 0,
               AudioPause 0, AudioSeek 0 0, AudioSetSrc 0 None, TrackStop 0 0, TrackStop 0 1,
               CtxClose 0]\<rparr>"
  by (simp add: stopped_def granted_eq stopStream_def call_defs concrete_defs Let_def)

lemma muted_eq:
  "muted =
     \<lparr>videoElement = None, audioContext = Some 0,
      analyser = Some \<lparr>an_context = 0, fftSize = 256\<rparr>, stream = Some 0,
      audioElement = Some 0, isStreaming = False, hasPermission = True,
      errorMessage = [], micLevel = 0, availableMics = [], selectedMicId = [],
      audioEnabled = False, audioDelay = 0, canvasElement = None, animationFrame = None,
      audios = [\<lparr>srcObject = None, paused = True, currentTime = 0, muted = False,
                 volume = 4 / 5\<rparr>],
      streams = [\<lparr>tracks = [\<lparr>kind = AudioTrack, readyState = Live\<rparr>,
                            \<lparr>kind = VideoTrack, readyState = Live\<rparr>]\<rparr>],
      contexts = [\<lparr>cstate = Running, nodes = [MediaStreamSource 0, AnalyserNode],
                   connections = [(0, 1)]\<rparr>],
      scheduled = None, frames = 0,
      trace = [GetUserMedia None, AudioNew 0, AudioSetSrc 0 (Some 0), AudioPlay 0, CtxNew 0,
               AudioPause 0, AudioSeek 0 0, AudioSetSrc 0 None]\<rparr>"
  by (simp add: muted_def granted_eq toggleAudio_def call_defs concrete_defs Let_def)


lemma denied_eq:
  "denied =
     \<lparr>videoElement = None, audioContext = None, analyser = None, stream = None,
      audioElement = None, isStreaming = False, hasPermission = False,
      errorMessage =
        ''Camera and microphone access was denied. Please allow access in your browser settings.'',
      micLevel = 0, availableMics = [''mic-a'', ''mic-b''], selectedMicId = ''mic-a'',
      audioEnabled = False, audioDelay = 0,
      canvasElement = Some \<lparr>has2d = True, bars = []\<rparr>, animationFrame = None,
      audios = [], streams = [], contexts = [], scheduled = None, frames = 0,
      trace = [GetUserMedia (Some ''mic-a'')]\<rparr>"
  by (simp add: denied_def env_denied_def handler_defs call_defs concrete_defs Let_def)

section \<open>What the call sequences leave alone\<close>

lemma vars_kept_refl [simp]: "vars_kept s s"
  by (simp add: vars_kept_def)

lemma vars_kept_trans: "vars_kept s s1 \<Longrightarrow> vars_kept s1 s2 \<Longrightarrow> vars_kept s s2"
  by (simp add: vars_kept_def)

lemma vars_kept_then_try:
  "vars_kept s (state_of r) \<Longrightarrow> (\<And>x. r = Inr x \<Longrightarrow> vars_kept x (state_of (f x))) \<Longrightarrow>
   vars_kept s (state_of (then_try r f))"
  by (cases r) (auto simp: then_try_def intro: vars_kept_trans)

lemma vars_kept_calls [simp]:
  "vars_kept s (record_call k s)"
  "vars_kept s (audio_pause a s)"
  "vars_kept s (audio_setCurrentTime a t s)"
  "vars_kept s (audio_setSrcObject a src s)"
  "vars_kept s (audio_play e a s)"
  "vars_kept s (ctx_close c s)"
  "vars_kept s (add_node c n s)"
  "vars_kept s (connect c x y s)"
  "vars_kept s (state_of (ctx_new e s))"
  by (simp_all add: vars_kept_def call_defs)

lemma vars_kept_delay_nodes: "vars_kept s (state_of (delay_nodes e a st c s))"
  by (simp add: delay_nodes_def call_defs Let_def vars_kept_def)

lemma vars_kept_delay_graph: "vars_kept s (state_of (delay_graph e a st s))"
  unfolding delay_graph_def
proof (rule vars_kept_then_try, goal_cases)
  case 1
  show ?case by simp
next
  case (2 x)
  show ?case
  proof (cases "audioContext x")
    case None
    then show ?thesis by simp
  next
    case (Some old)
    have "vars_kept x (state_of (then_try
            (ctx_new e (if cstate (contexts x ! old) \<noteq> Closed then ctx_close old x else x))
            (\<lambda>s2. case audioContext s2 of None \<Rightarrow> Inl s2 | Some c \<Rightarrow> delay_nodes e a st c s2)))"
    proof (rule vars_kept_then_try, goal_cases)
      case 1
      show ?case
        by (rule vars_kept_trans
              [where ?s1.0 = "if cstate (contexts x ! old) \<noteq> Closed then ctx_close old x else x"])
           simp_all
    next
      case (2 y)
      show ?case by (simp add: vars_kept_delay_nodes split: option.split)
    qed
    with Some show ?thesis by simp
  qed
qed

lemma vars_kept_updateAudioDelay: "vars_kept s (updateAudioDelay e s)"
proof (cases "audioElement s")
  case None
  then show ?thesis by (simp add: updateAudioDelay_def)
next
  case (Some a)
  note el = this
  show ?thesis
  proof (cases "stream s")
    case None
    with el show ?thesis by (simp add: updateAudioDelay_def)
  next
    case (Some st)
    let ?s1 = "audio_setCurrentTime a 0 (audio_pause a s)"
    have k1: "vars_kept s ?s1"
      by (rule vars_kept_trans [OF vars_kept_calls(2) vars_kept_calls(3)])
    let ?s2 = "if audioDelay ?s1 > 0 \<and> has_AudioContext e then
                 (case delay_graph e a st ?s1 of
                    Inr s' \<Rightarrow> s'
                  | Inl s' \<Rightarrow> audio_setSrcObject a (Some st) s')
               else audio_setSrcObject a (Some st) ?s1"
    have "vars_kept ?s1 ?s2"
      using vars_kept_delay_graph [of ?s1 e a st]
      by (cases "delay_graph e a st ?s1")
         (auto intro: vars_kept_trans [OF _ vars_kept_calls(4)])
    with k1 have k2: "vars_kept s ?s2" by (rule vars_kept_trans)
    have "vars_kept s (if audioEnabled ?s2 then audio_play e a ?s2 else ?s2)"
      using k2 by (auto intro: vars_kept_trans [OF _ vars_kept_calls(5)])
    with el Some show ?thesis by (simp add: updateAudioDelay_def Let_def)
  qed
qed

lemma setupAudioAnalyser_keeps:
  "audioElement (state_of (setupAudioAnalyser e ms s)) = audioElement s \<and>
   stream (state_of (setupAudioAnalyser e ms s)) = stream s \<and>
   audioEnabled (state_of (setupAudioAnalyser e ms s)) = audioEnabled s \<and>
   micLevel (state_of (setupAudioAnalyser e ms s)) = micLevel s \<and>
   canvasElement (state_of (setupAudioAnalyser e ms s)) = canvasElement s \<and>
   audios (state_of (setupAudioAnalyser e ms s)) = audios s"
  by (simp add: setupAudioAnalyser_def call_defs Let_def split: option.split)

lemma setupAudioPlayback_vars:
  "has_Audio e \<Longrightarrow>
     audioEnabled (setupAudioPlayback e ms s) = play_resolves e \<and>
     audioElement (setupAudioPlayback e ms s) = Some (length (audios s)) \<and>
     stream (setupAudioPlayback e ms s) = stream s"
  by (simp add: setupAudioPlayback_def call_defs Let_def)

lemma caught_vars:
  "audioEnabled (case r of Inr x \<Rightarrow> x | Inl x \<Rightarrow> x\<lparr>errorMessage := m, hasPermission := h\<rparr>) =
     audioEnabled (state_of r)"
  "audioElement (case r of Inr x \<Rightarrow> x | Inl x \<Rightarrow> x\<lparr>errorMessage := m, hasPermission := h\<rparr>) =
     audioElement (state_of r)"
  "stream (case r of Inr x \<Rightarrow> x | Inl x \<Rightarrow> x\<lparr>errorMessage := m, hasPermission := h\<rparr>) =
     stream (state_of r)"
  by (cases r; simp)+

lemma requestPermissions_granted:
  assumes "has_navigator e" "has_Audio e" "getUserMedia_result e = Granted"
  shows "audioEnabled (requestPermissions e s) = play_resolves e \<and>
         audioElement (requestPermissions e s) = Some (length (audios s)) \<and>
         stream (requestPermissions e s) = Some (length (streams s))"
  using assms
  by (simp add: requestPermissions_def Let_def caught_vars setupAudioAnalyser_keeps
        setupAudioPlayback_vars record_call_def split: option.split)

lemma toggleAudio_enabling:
  assumes "audioElement s = Some a" "stream s = Some st" "\<not> audioEnabled s"
  shows "audioEnabled (toggleAudio e s) = play_resolves e \<and>
         audioElement (toggleAudio e s) = Some a \<and> stream (toggleAudio e s) = Some st"
  using assms vars_kept_updateAudioDelay [of s e]
  by (simp add: toggleAudio_def vars_kept_def audio_play_def record_call_def)

section \<open>The calls of the handlers\<close>

lemma trace_setupAudioAnalyser:
  "trace (state_of (setupAudioAnalyser e ms s)) =
     trace s @ (if has_AudioContext e \<and> audioContext s = None \<and> \<not> throws e NewAudioContext
                then [CtxNew (length (contexts s))] else [])"
  by (cases "audioContext s") (simp_all add: setupAudioAnalyser_def call_defs Let_def)

lemma trace_setupAudioPlayback:
  "trace (setupAudioPlayback e ms s) =
     trace s @ (if has_Audio e
                then [AudioNew (length (audios s)), AudioSetSrc (length (audios s)) (Some ms),
                      AudioPlay (length (audios s))]
                else [])"
  by (simp add: setupAudioPlayback_def call_defs Let_def)

lemma setupAudioPlayback_ctx:
  "audioContext (setupAudioPlayback e ms s) = audioContext s"
  "contexts (setupAudioPlayback e ms s) = contexts s"
  by (simp_all add: setupAudioPlayback_def call_defs Let_def)

lemma caught_trace:
  "trace (case r of Inr x \<Rightarrow> x | Inl x \<Rightarrow> x\<lparr>errorMessage := m, hasPermission := h\<rparr>) =
     trace (state_of r)"
  by (cases r; simp)

lemma trace_requestPermissions:
  "trace (requestPermissions e s) =
     trace s @
     (if has_navigator e then
        GetUserMedia (if selectedMicId s \<noteq> [] then Some (selectedMicId s) else None) #
        (case getUserMedia_result e of
           Rejected err \<Rightarrow> []
         | Granted \<Rightarrow>
             (case videoElement s of
                None \<Rightarrow> []
              | Some v \<Rightarrow> [VideoSetSrc (Some (length (streams s)))]) @
             (if has_Audio e
              then [AudioNew (length (audios s)),
                    AudioSetSrc (length (audios s)) (Some (length (streams s))),
                    AudioPlay (length (audios s))]
              else []) @
             (if has_AudioContext e \<and> audioContext s = None \<and> \<not> throws e NewAudioContext
              then [CtxNew (length (contexts s))] else []))
      else [])"
  by (cases "getUserMedia_result e"; cases "videoElement s")
     (simp_all add: requestPermissions_def Let_def caught_trace trace_setupAudioAnalyser
        trace_setupAudioPlayback setupAudioPlayback_ctx record_call_def)

lemma trace_stopStream:
  "trace (stopStream s) =
     trace s @
     (case videoElement s of None \<Rightarrow> [] | Some v \<Rightarrow> [VideoPause, VideoSetSrc None]) @
     (case audioElement s of
        None \<Rightarrow> []
      | Some a \<Rightarrow> [AudioPause a, AudioSeek a 0, AudioSetSrc a None]) @
     (case stream s of
        None \<Rightarrow> []
      | Some st \<Rightarrow> map (TrackStop st) [0..<length (tracks (streams s ! st))]) @
     (case audioContext s of None \<Rightarrow> [] | Some c \<Rightarrow> [CtxClose c])"
  by (cases "videoElement s"; cases "audioElement s"; cases "stream s"; cases "audioContext s")
     (simp_all add: stopStream_def call_defs Let_def)

lemma stopStream_vars:
  "audioContext (stopStream s) = None"
  "\<not> audioEnabled (stopStream s)"
  "\<not> isStreaming (stopStream s)"
  "micLevel (stopStream s) = 0"
  "selectedMicId (stopStream s) = selectedMicId s"
  "stream (stopStream s) = stream s"
  "audioElement (stopStream s) = audioElement s"
  "analyser (stopStream s) = analyser s"
  "canvasElement (stopStream s) = canvasElement s"
  "animationFrame (stopStream s) = animationFrame s"
  "length (audios (stopStream s)) = length (audios s)"
  "length (streams (stopStream s)) = length (streams s)"
  "length (contexts (stopStream s)) = length (contexts s)"
  "videoElement (stopStream s) =
     (case videoElement s of
        None \<Rightarrow> None
      | Some v \<Rightarrow> Some (v\<lparr>v_paused := True, v_srcObject := None\<rparr>))"
  by (cases "videoElement s"; cases "audioElement s"; cases "stream s"; cases "audioContext s";
      simp add: stopStream_def call_defs Let_def)+

lemma stopStream_objects:
  "stream s = Some st \<Longrightarrow> st < length (streams s) \<Longrightarrow>
     tracks (streams (stopStream s) ! st) = map stop_track (tracks (streams s ! st))"
  "audioElement s = Some a \<Longrightarrow> a < length (audios s) \<Longrightarrow>
     paused (audios (stopStream s) ! a) \<and> srcObject (audios (stopStream s) ! a) = None \<and>
     currentTime (audios (stopStream s) ! a) = 0"
  "audioContext s = Some c \<Longrightarrow> c < length (contexts s) \<Longrightarrow>
     cstate (contexts (stopStream s) ! c) = Closed"
  by (cases "videoElement s"; cases "audioElement s"; cases "stream s"; cases "audioContext s";
      simp add: stopStream_def call_defs Let_def nth_upd)+

section \<open>One live context\<close>

lemma one_live_append:
  "one_live l (xs @ ys) = (one_live l xs \<and> one_live (live_after l xs) ys)"
  by (induction l xs rule: one_live.induct) simp_all

lemma live_after_append:
  "live_after l (xs @ ys) = live_after (live_after l xs) ys"
  by (induction l xs rule: live_after.induct) simp_all

lemma one_live_filter: "one_live l (filter is_ctx xs) = one_live l xs"
  by (induction l xs rule: one_live.induct) simp_all

lemma live_after_filter: "live_after l (filter is_ctx xs) = live_after l xs"
  by (induction l xs rule: live_after.induct) simp_all

lemma ctx_same_refl [simp]: "ctx_same s s"
  by (simp add: ctx_same_def)

lemma ctx_same_trans: "ctx_same s s1 \<Longrightarrow> ctx_same s1 s2 \<Longrightarrow> ctx_same s s2"
  by (simp add: ctx_same_def)

lemma ctx_same_live_ref: "ctx_same s s' \<Longrightarrow> live_ref s' = live_ref s"
  by (simp add: ctx_same_def live_ref_def split: option.split)



lemma ctx_same_inv: "ctx_same s s' \<Longrightarrow> ctx_inv s \<Longrightarrow> ctx_inv s'"
proof -
  assume a: "ctx_same s s'" and i: "ctx_inv s"
  from a have f: "filter is_ctx (trace s') = filter is_ctx (trace s)"
    and c: "audioContext s' = audioContext s" "length (contexts s') = length (contexts s)"
      "\<And>c. cstate (contexts s' ! c) = cstate (contexts s ! c)"
    by (simp_all add: ctx_same_def)
  have "one_live None (trace s') = one_live None (filter is_ctx (trace s'))"
    by (simp only: one_live_filter)
  also have "\<dots> = one_live None (trace s)"
    by (simp only: f one_live_filter)
  finally have t1: "one_live None (trace s') = one_live None (trace s)" .
  have "live_after None (trace s') = live_after None (filter is_ctx (trace s'))"
    by (simp only: live_after_filter)
  also have "\<dots> = live_after None (trace s)"
    by (simp only: f live_after_filter)
  finally have t2: "live_after None (trace s') = live_after None (trace s)" .
  have l: "live_ref s' = live_ref s"
    using a by (rule ctx_same_live_ref)
  from i show ?thesis
    unfolding ctx_inv_def t1 t2 l c .
qed


lemma ctx_same_calls [simp]:
  "\<not> is_ctx k \<Longrightarrow> ctx_same s (record_call k s)"
  "ctx_same s (audio_pause a s)"
  "ctx_same s (audio_setCurrentTime a t s)"
  "ctx_same s (audio_setSrcObject a src s)"
  "ctx_same s (audio_play e a s)"
  "ctx_same s (stop_tracks st s)"
  "ctx_same s (add_node c n s)"
  "ctx_same s (connect c x y s)"
  by (simp_all add: ctx_same_def call_defs nth_upd)

lemma ctx_same_delay_nodes: "ctx_same s (state_of (delay_nodes e a st c s))"
  by (simp add: delay_nodes_def call_defs Let_def ctx_same_def nth_upd)


lemma ctx_close_fields:
  "audioContext (ctx_close c s) = audioContext s"
  "length (contexts (ctx_close c s)) = length (contexts s)"
  "trace (ctx_close c s) = trace s @ [CtxClose c]"
  "cstate (contexts (ctx_close c s) ! x) =
     (if x = c \<and> c < length (contexts s) then Closed else cstate (contexts s ! x))"
  by (simp_all add: ctx_close_def record_call_def nth_upd)

lemma ctx_inv_close:
  assumes "ctx_inv s" "audioContext s = Some c"
  shows "ctx_inv (ctx_close c s) \<and> live_ref (ctx_close c s) = None \<and>
         audioContext (ctx_close c s) = Some c"
proof -
  from assms have r: "c < length (contexts s)"
    by (simp add: ctx_inv_def)
  from assms have l: "live_after None (trace s) = live_ref s" "one_live None (trace s)"
    by (simp_all add: ctx_inv_def)
  have lr: "live_ref s = None \<or> live_ref s = Some c"
    using assms(2) by (simp add: live_ref_def)
  have n: "live_ref (ctx_close c s) = None"
    using assms(2) r by (simp add: live_ref_def ctx_close_fields)
  have o: "\<forall>x. x < length (contexts s) \<and> cstate (contexts s ! x) \<noteq> Closed \<longrightarrow> x = c"
    using assms by (simp add: ctx_inv_def)
  have "ctx_inv (ctx_close c s)"
    unfolding ctx_inv_def
    using assms(2) r l lr n o
    by (auto simp: ctx_close_fields one_live_append live_after_append)
  with n assms(2) show ?thesis by (simp add: ctx_close_fields)
qed


lemma ctx_new_fields:
  assumes "ctx_new e s = Inr s1"
  shows "audioContext s1 = Some (length (contexts s))"
    "contexts s1 = contexts s @ [new_context]"
    "trace s1 = trace s @ [CtxNew (length (contexts s))]"
proof -
  from assms have "s1 = record_call (CtxNew (length (contexts s)))
             (s\<lparr>contexts := contexts s @ [new_context],
                audioContext := Some (length (contexts s))\<rparr>)"
    by (cases "throws e NewAudioContext") (simp_all add: ctx_new_def)
  then show "audioContext s1 = Some (length (contexts s))"
    "contexts s1 = contexts s @ [new_context]"
    "trace s1 = trace s @ [CtxNew (length (contexts s))]"
    by (simp_all add: record_call_def)
qed

lemma ctx_new_throw: "ctx_new e s = Inl s1 \<Longrightarrow> s1 = s"
  by (cases "throws e NewAudioContext") (simp_all add: ctx_new_def)


lemma ctx_invD:
  assumes "ctx_inv s"
  shows "audioContext s = Some c \<Longrightarrow> c < length (contexts s)"
    "c < length (contexts s) \<Longrightarrow> cstate (contexts s ! c) \<noteq> Closed \<Longrightarrow> audioContext s = Some c"
    "one_live None (trace s)"
    "live_after None (trace s) = live_ref s"
  using assms unfolding ctx_inv_def by blast+

lemma ctx_invI:
  assumes "\<And>c. audioContext s = Some c \<Longrightarrow> c < length (contexts s)"
    "\<And>c. c < length (contexts s) \<Longrightarrow> cstate (contexts s ! c) \<noteq> Closed \<Longrightarrow> audioContext s = Some c"
    "one_live None (trace s)"
    "live_after None (trace s) = live_ref s"
  shows "ctx_inv s"
  using assms unfolding ctx_inv_def by blast

lemma ctx_inv_new:
  assumes "ctx_inv s" "live_ref s = None" "ctx_new e s = Inr s1"
  shows "ctx_inv s1 \<and> audioContext s1 = Some (length (contexts s))"
proof -
  note f = ctx_new_fields [OF assms(3)]
  have l: "live_after None (trace s) = None" "one_live None (trace s)"
    using ctx_invD(3,4) [OF assms(1)] assms(2) by simp_all
  have o: "cstate (contexts s ! x) = Closed" if x: "x < length (contexts s)" for x
  proof (rule ccontr)
    assume c: "cstate (contexts s ! x) \<noteq> Closed"
    have "audioContext s = Some x"
      using assms(1) x c by (rule ctx_invD(2))
    with c assms(2) show False
      by (simp add: live_ref_def)
  qed
  have n: "live_ref s1 = Some (length (contexts s))"
    by (simp add: live_ref_def f new_context_def)
  have "ctx_inv s1"
  proof (rule ctx_invI)
    fix c assume "audioContext s1 = Some c"
    then show "c < length (contexts s1)" by (simp add: f)
  next
    fix c assume c: "c < length (contexts s1)" "cstate (contexts s1 ! c) \<noteq> Closed"
    have "c = length (contexts s)"
    proof (rule ccontr)
      assume "c \<noteq> length (contexts s)"
      with c(1) have lt: "c < length (contexts s)" by (simp add: f)
      then have "cstate (contexts s1 ! c) = Closed"
        using o [OF lt] by (simp add: f nth_append)
      with c(2) show False by simp
    qed
    then show "audioContext s1 = Some c" by (simp add: f)
  next
    show "one_live None (trace s1)"
      using l by (simp add: f one_live_append)
  next
    show "live_after None (trace s1) = live_ref s1"
      using l by (simp add: f n live_after_append)
  qed
  with f(1) show ?thesis by simp
qed


lemma ctx_inv_rebuild:
  assumes "ctx_inv s1" "audioContext s1 = Some old"
  shows "ctx_inv (state_of (then_try
           (ctx_new e (if cstate (contexts s1 ! old) \<noteq> Closed then ctx_close old s1 else s1))
           (\<lambda>s2. case audioContext s2 of None \<Rightarrow> Inl s2 | Some c \<Rightarrow> delay_nodes e a st c s2)))"
proof -
  let ?c = "if cstate (contexts s1 ! old) \<noteq> Closed then ctx_close old s1 else s1"
  have i: "ctx_inv ?c \<and> live_ref ?c = None"
  proof (cases "cstate (contexts s1 ! old) = Closed")
    case True
    with assms show ?thesis by (simp add: live_ref_def)
  next
    case False
    with ctx_inv_close [OF assms] show ?thesis by simp
  qed
  show ?thesis
  proof (cases "ctx_new e ?c")
    case (Inl y)
    then have "y = ?c" by (rule ctx_new_throw)
    with Inl i show ?thesis by (simp add: then_try_def)
  next
    case (Inr s2)
    from i have "ctx_inv ?c" "live_ref ?c = None" by simp_all
    from ctx_inv_new [OF this Inr]
    have j: "ctx_inv s2" "audioContext s2 = Some (length (contexts ?c))" by simp_all
    have "ctx_inv (state_of (delay_nodes e a st (length (contexts ?c)) s2))"
      using ctx_same_delay_nodes j(1) by (rule ctx_same_inv)
    with Inr j(2) show ?thesis by (simp add: then_try_def)
  qed
qed

lemma ctx_inv_delay_graph:
  assumes "ctx_inv s"
  shows "ctx_inv (state_of (delay_graph e a st s))"
proof (cases "audioContext s")
  case None
  then have l: "live_ref s = None" by (simp add: live_ref_def)
  show ?thesis
  proof (cases "ctx_new e s")
    case (Inl x)
    then have "x = s" by (rule ctx_new_throw)
    with Inl None assms show ?thesis by (simp add: delay_graph_def then_try_def)
  next
    case (Inr s1)
    from ctx_inv_new [OF assms l Inr]
    have j: "ctx_inv s1" "audioContext s1 = Some (length (contexts s))" by simp_all
    from ctx_inv_rebuild [OF j, of e a st] Inr None j(2) show ?thesis
      by (simp add: delay_graph_def then_try_def)
  qed
next
  case (Some old)
  from ctx_inv_rebuild [OF assms Some, of e a st] Some show ?thesis
    by (simp add: delay_graph_def then_try_def)
qed


lemma ctx_same_sym: "ctx_same s s' \<Longrightarrow> ctx_same s' s"
  by (simp add: ctx_same_def)

lemma ctx_same_iff: "ctx_same s s' \<Longrightarrow> ctx_inv s' = ctx_inv s"
  using ctx_same_inv [of s s'] ctx_same_inv [of s' s] ctx_same_sym [of s s'] by blast

lemma ctx_inv_calls [simp]:
  "\<not> is_ctx k \<Longrightarrow> ctx_inv (record_call k s) = ctx_inv s"
  "ctx_inv (audio_pause a s) = ctx_inv s"
  "ctx_inv (audio_setCurrentTime a t s) = ctx_inv s"
  "ctx_inv (audio_setSrcObject a src s) = ctx_inv s"
  "ctx_inv (audio_play e a s) = ctx_inv s"
  "ctx_inv (stop_tracks st s) = ctx_inv s"
  "ctx_inv (add_node c n s) = ctx_inv s"
  "ctx_inv (connect c x y s) = ctx_inv s"
  by (rule ctx_same_iff, simp)+

lemma ctx_same_updates [simp]:
  "ctx_same s (s\<lparr>videoElement := v\<rparr>)"
  "ctx_same s (s\<lparr>analyser := an\<rparr>)"
  "ctx_same s (s\<lparr>stream := st\<rparr>)"
  "ctx_same s (s\<lparr>audioElement := ae\<rparr>)"
  "ctx_same s (s\<lparr>isStreaming := b\<rparr>)"
  "ctx_same s (s\<lparr>hasPermission := b\<rparr>)"
  "ctx_same s (s\<lparr>errorMessage := m\<rparr>)"
  "ctx_same s (s\<lparr>micLevel := x\<rparr>)"
  "ctx_same s (s\<lparr>availableMics := ms\<rparr>)"
  "ctx_same s (s\<lparr>selectedMicId := d\<rparr>)"
  "ctx_same s (s\<lparr>audioEnabled := b\<rparr>)"
  "ctx_same s (s\<lparr>audioDelay := i\<rparr>)"
  "ctx_same s (s\<lparr>canvasElement := cv\<rparr>)"
  "ctx_same s (s\<lparr>animationFrame := h\<rparr>)"
  "ctx_same s (s\<lparr>audios := as\<rparr>)"
  "ctx_same s (s\<lparr>streams := ss\<rparr>)"
  "ctx_same s (s\<lparr>scheduled := h\<rparr>)"
  "ctx_same s (s\<lparr>frames := n\<rparr>)"
  by (simp_all add: ctx_same_def)

lemma ctx_inv_updates [simp]:
  "ctx_inv (s\<lparr>videoElement := v\<rparr>) = ctx_inv s"
  "ctx_inv (s\<lparr>analyser := an\<rparr>) = ctx_inv s"
  "ctx_inv (s\<lparr>stream := st\<rparr>) = ctx_inv s"
  "ctx_inv (s\<lparr>audioElement := ae\<rparr>) = ctx_inv s"
  "ctx_inv (s\<lparr>isStreaming := b\<rparr>) = ctx_inv s"
  "ctx_inv (s\<lparr>hasPermission := b\<rparr>) = ctx_inv s"
  "ctx_inv (s\<lparr>errorMessage := m\<rparr>) = ctx_inv s"
  "ctx_inv (s\<lparr>micLevel := x\<rparr>) = ctx_inv s"
  "ctx_inv (s\<lparr>availableMics := ms\<rparr>) = ctx_inv s"
  "ctx_inv (s\<lparr>selectedMicId := d\<rparr>) = ctx_inv s"
  "ctx_inv (s\<lparr>audioEnabled := b\<rparr>) = ctx_inv s"
  "ctx_inv (s\<lparr>audioDelay := i\<rparr>) = ctx_inv s"
  "ctx_inv (s\<lparr>canvasElement := cv\<rparr>) = ctx_inv s"
  "ctx_inv (s\<lparr>animationFrame := h\<rparr>) = ctx_inv s"
  "ctx_inv (s\<lparr>audios := as\<rparr>) = ctx_inv s"
  "ctx_inv (s\<lparr>streams := ss\<rparr>) = ctx_inv s"
  "ctx_inv (s\<lparr>scheduled := h\<rparr>) = ctx_inv s"
  "ctx_inv (s\<lparr>frames := n\<rparr>) = ctx_inv s"
  by (rule ctx_same_iff, simp)+

lemma ctx_inv_updateAudioDelay:
  assumes "ctx_inv s"
  shows "ctx_inv (updateAudioDelay e s)"
proof (cases "audioElement s")
  case None
  with assms show ?thesis by (simp add: updateAudioDelay_def)
next
  case (Some a)
  note el = this
  show ?thesis
  proof (cases "stream s")
    case None
    with el assms show ?thesis by (simp add: updateAudioDelay_def)
  next
    case (Some st)
    let ?s1 = "audio_setCurrentTime a 0 (audio_pause a s)"
    have i1: "ctx_inv ?s1" using assms by simp
    let ?s2 = "if audioDelay ?s1 > 0 \<and> has_AudioContext e then
                 (case delay_graph e a st ?s1 of
                    Inr s' \<Rightarrow> s'
                  | Inl s' \<Rightarrow> audio_setSrcObject a (Some st) s')
               else audio_setSrcObject a (Some st) ?s1"
    have i2: "ctx_inv ?s2"
      using ctx_inv_delay_graph [OF i1, of e a st] i1
      by (cases "delay_graph e a st ?s1") simp_all
    have "ctx_inv (if audioEnabled ?s2 then audio_play e a ?s2 else ?s2)"
      using i2 by simp
    with el Some show ?thesis by (simp add: updateAudioDelay_def Let_def)
  qed
qed


lemma ctx_inv_analyser_nodes:
  assumes "ctx_inv s1"
  shows "ctx_inv (state_of
           (if throws e CreateMediaStreamSource then Inl s1
            else
              let source = length (nodes (contexts s1 ! c));
                  s2 = add_node c (MediaStreamSource ms) s1
              in if throws e CreateAnalyser then Inl s2
            else
              let an = length (nodes (contexts s2 ! c));
                  s3 = (add_node c AnalyserNode s2)
                         \<lparr>analyser := Some \<lparr>an_context = c, fftSize = 256\<rparr>\<rparr>
              in Inr (connect c source an s3)))"
  using assms by (simp add: Let_def)

lemma ctx_inv_setupAudioAnalyser:
  assumes "ctx_inv s"
  shows "ctx_inv (state_of (setupAudioAnalyser e ms s))"
proof (cases "has_AudioContext e")
  case False
  with assms show ?thesis by (simp add: setupAudioAnalyser_def)
next
  case True
  show ?thesis
  proof (cases "audioContext s")
    case None
    then have l: "live_ref s = None" by (simp add: live_ref_def)
    show ?thesis
    proof (cases "ctx_new e s")
      case (Inl x)
      then have "x = s" by (rule ctx_new_throw)
      with Inl None True assms show ?thesis
        by (simp add: setupAudioAnalyser_def then_try_def)
    next
      case (Inr s1)
      from ctx_inv_new [OF assms l Inr]
      have j: "ctx_inv s1" "audioContext s1 = Some (length (contexts s))" by simp_all
      from ctx_inv_analyser_nodes [OF j(1), of e "length (contexts s)" ms] Inr None True j(2)
      show ?thesis
        by (simp add: setupAudioAnalyser_def then_try_def)
    qed
  next
    case (Some c)
    from ctx_inv_analyser_nodes [OF assms, of e c ms] Some True
    show ?thesis
      by (simp add: setupAudioAnalyser_def then_try_def)
  qed
qed

lemma ctx_inv_setupAudioPlayback: "ctx_inv (setupAudioPlayback e ms s) = ctx_inv s"
  by (rule ctx_same_iff) (simp add: setupAudioPlayback_def call_defs Let_def ctx_same_def)

lemma ctx_inv_caught:
  "ctx_inv (case r of Inr x \<Rightarrow> x | Inl x \<Rightarrow> x\<lparr>errorMessage := m, hasPermission := h\<rparr>) =
     ctx_inv (state_of r)"
  by (cases r) (simp_all add: ctx_same_iff ctx_same_def)

lemma ctx_inv_requestPermissions:
  assumes "ctx_inv s"
  shows "ctx_inv (requestPermissions e s)"
  using assms
  by (simp add: requestPermissions_def Let_def ctx_inv_caught ctx_inv_setupAudioAnalyser
        ctx_inv_setupAudioPlayback split: gum_result.split option.split)

lemma ctx_inv_clear:
  assumes "ctx_inv s" "live_ref s = None"
  shows "ctx_inv (s\<lparr>audioContext := None\<rparr>)"
proof (rule ctx_invI)
  fix c assume "audioContext (s\<lparr>audioContext := None\<rparr>) = Some c"
  then show "c < length (contexts (s\<lparr>audioContext := None\<rparr>))" by simp
next
  fix c
  assume c: "c < length (contexts (s\<lparr>audioContext := None\<rparr>))"
    "cstate (contexts (s\<lparr>audioContext := None\<rparr>) ! c) \<noteq> Closed"
  then have "audioContext s = Some c"
    using ctx_invD(2) [OF assms(1), of c] by simp
  with c(2) assms(2) have False by (simp add: live_ref_def)
  then show "audioContext (s\<lparr>audioContext := None\<rparr>) = Some c" ..
next
  show "one_live None (trace (s\<lparr>audioContext := None\<rparr>))"
    using ctx_invD(3) [OF assms(1)] by simp
next
  show "live_after None (trace (s\<lparr>audioContext := None\<rparr>)) = live_ref (s\<lparr>audioContext := None\<rparr>)"
    using ctx_invD(4) [OF assms(1)] assms(2) by (simp add: live_ref_def)
qed

lemma stopStream_cstate:
  "cstate (contexts (stopStream s) ! x) =
     (if audioContext s = Some x \<and> x < length (contexts s) then Closed
      else cstate (contexts s ! x))"
  by (cases "videoElement s"; cases "audioElement s"; cases "stream s"; cases "audioContext s")
     (simp_all add: stopStream_def call_defs Let_def nth_upd)

lemma ctx_calls_stopStream:
  "filter is_ctx (trace (stopStream s)) =
     filter is_ctx (trace s) @ (case audioContext s of None \<Rightarrow> [] | Some c \<Rightarrow> [CtxClose c])"
  by (simp add: trace_stopStream comp_def split: option.split)

lemma ctx_inv_stopStream:
  assumes "ctx_inv s"
  shows "ctx_inv (stopStream s)"
proof (rule ctx_invI)
  fix c assume "audioContext (stopStream s) = Some c"
  then show "c < length (contexts (stopStream s))" by (simp add: stopStream_vars)
next
  fix c
  assume c: "c < length (contexts (stopStream s))"
    "cstate (contexts (stopStream s) ! c) \<noteq> Closed"
  from c(1) have lt: "c < length (contexts s)" by (simp add: stopStream_vars)
  from c(2) have n: "cstate (contexts s ! c) \<noteq> Closed" "audioContext s \<noteq> Some c"
    using lt by (simp_all add: stopStream_cstate split: if_splits)
  from ctx_invD(2) [OF assms lt n(1)] n(2) have False by simp
  then show "audioContext (stopStream s) = Some c" ..
next
  have "one_live None (filter is_ctx (trace (stopStream s)))"
    using ctx_invD(3,4) [OF assms]
    by (simp add: ctx_calls_stopStream one_live_append one_live_filter live_after_filter
          split: option.split)
  then show "one_live None (trace (stopStream s))"
    by (simp only: one_live_filter)
next
  have "live_after None (filter is_ctx (trace (stopStream s))) = None"
    using ctx_invD(4) [OF assms]
    by (simp add: ctx_calls_stopStream live_after_append live_after_filter live_ref_def
          split: option.split)
  then show "live_after None (trace (stopStream s)) = live_ref (stopStream s)"
    by (simp add: live_after_filter live_ref_def stopStream_vars)
qed

lemma ctx_inv_toggleAudio:
  assumes "ctx_inv s"
  shows "ctx_inv (toggleAudio e s)"
  using assms
  by (simp add: toggleAudio_def ctx_inv_updateAudioDelay split: option.split)

lemma ctx_inv_draw: "ctx_inv (draw e s) = ctx_inv s"
  by (rule ctx_same_iff)
     (simp add: draw_def Let_def ctx_same_def record_call_def split: option.split)

lemma ctx_inv_startStream: "ctx_inv (startStream s) = ctx_inv s"
  by (rule ctx_same_iff) (simp add: startStream_def ctx_same_def split: option.split)

lemma ctx_inv_render: "ctx_inv (render b s) = ctx_inv s"
  by (rule ctx_same_iff) (simp add: render_def ctx_same_def)

lemma ctx_inv_getAudioDevices: "ctx_inv (getAudioDevices e s) = ctx_inv s"
  by (rule ctx_same_iff)
     (simp add: getAudioDevices_def ctx_same_def split: option.split list.split)

lemma ctx_inv_onDestroy:
  assumes "ctx_inv s"
  shows "ctx_inv (onDestroy e s)"
  using ctx_inv_stopStream [OF assms]
  by (simp add: onDestroy_def Let_def split: option.split)

lemma ctx_inv_step:
  assumes "ctx_inv s"
  shows "ctx_inv (step e ev s)"
proof (cases ev)
  case Mount
  with assms show ?thesis
    by (simp add: onMount_def startAudioLevelVisualization_def ctx_inv_draw
          ctx_inv_requestPermissions ctx_inv_getAudioDevices)
next
  case Destroy
  with assms show ?thesis by (simp add: ctx_inv_onDestroy)
next
  case EnableClicked
  with assms show ?thesis by (simp add: ctx_inv_requestPermissions)
next
  case StartClicked
  with assms show ?thesis by (simp add: ctx_inv_startStream)
next
  case StopClicked
  with assms show ?thesis by (simp add: ctx_inv_stopStream)
next
  case (MicSelected d)
  with assms show ?thesis
    by (simp add: switchMicrophone_def ctx_inv_requestPermissions ctx_inv_stopStream)
next
  case (DelayMoved d)
  with assms show ?thesis by (simp add: ctx_inv_updateAudioDelay)
next
  case AudioToggled
  with assms show ?thesis by (simp add: ctx_inv_toggleAudio)
next
  case FrameDue
  with assms show ?thesis by (simp add: ctx_inv_draw split: option.split)
next
  case (Rendered b)
  with assms show ?thesis by (simp add: ctx_inv_render)
qed

lemma ctx_inv_initial: "ctx_inv initial"
  by (simp add: ctx_inv_def live_ref_def initial_def)

lemma reachable_ctx_inv: "reachable s \<Longrightarrow> ctx_inv s"
  by (induction rule: reachable.induct) (simp_all add: ctx_inv_initial ctx_inv_step)


lemma closed_same [simp]: "cstate x = Closed \<Longrightarrow> x\<lparr>cstate := Closed\<rparr> = x"
  by (cases x) simp

lemma live_contexts_bound:
  assumes "ctx_inv s"
  shows "length (live_contexts s) \<le> 1"
    and "audioContext s = None \<Longrightarrow> live_contexts s = []"
proof -
  have d: "distinct (live_contexts s)"
    by (simp add: live_contexts_def)
  have m: "audioContext s = Some x" if "x \<in> set (live_contexts s)" for x
    using that ctx_invD(2) [OF assms, of x] by (simp add: live_contexts_def)
  show n: "live_contexts s = []" if "audioContext s = None"
  proof (cases "live_contexts s")
    case Nil
    then show ?thesis .
  next
    case (Cons x xs)
    then have "x \<in> set (live_contexts s)" by simp
    from m [OF this] that show ?thesis by simp
  qed
  show "length (live_contexts s) \<le> 1"
  proof (cases "audioContext s")
    case None
    with n show ?thesis by simp
  next
    case (Some c)
    have "set (live_contexts s) \<subseteq> {c}"
      using m Some by auto
    then have "card (set (live_contexts s)) \<le> card {c}"
      by (intro card_mono) simp_all
    with distinct_card [OF d] show ?thesis by simp
  qed
qed

section \<open>The display without an analyser\<close>

lemma display_kept:
  assumes "display_inv s" "micLevel s' = micLevel s" "canvasElement s' = canvasElement s"
    "analyser s \<noteq> None \<Longrightarrow> analyser s' \<noteq> None"
  shows "display_inv s'"
  using assms unfolding display_inv_def frame_def by metis

lemma display_vars_kept:
  assumes "vars_kept s s'" "display_inv s"
  shows "display_inv s'"
  using assms(2)
proof (rule display_kept)
  from assms(1) show "micLevel s' = micLevel s" "canvasElement s' = canvasElement s"
    by (simp_all add: vars_kept_def)
  from assms(1) show "analyser s' \<noteq> None" if "analyser s \<noteq> None"
    using that unfolding vars_kept_def by blast
qed

lemma display_updateAudioDelay: "display_inv s \<Longrightarrow> display_inv (updateAudioDelay e s)"
  using vars_kept_updateAudioDelay by (rule display_vars_kept)

lemma display_toggleAudio:
  assumes "display_inv s"
  shows "display_inv (toggleAudio e s)"
proof (rule display_kept [OF assms])
  have k: "vars_kept s (updateAudioDelay e s)"
    by (rule vars_kept_updateAudioDelay)
  show "micLevel (toggleAudio e s) = micLevel s"
    using k by (simp add: toggleAudio_def call_defs vars_kept_def split: option.split)
  show "canvasElement (toggleAudio e s) = canvasElement s"
    using k by (simp add: toggleAudio_def call_defs vars_kept_def split: option.split)
  show "analyser (toggleAudio e s) \<noteq> None" if "analyser s \<noteq> None"
    using k that by (simp add: toggleAudio_def call_defs vars_kept_def split: option.split)
qed

lemma setupAudioAnalyser_analyser:
  "analyser s \<noteq> None \<Longrightarrow> analyser (state_of (setupAudioAnalyser e ms s)) \<noteq> None"
  by (cases "audioContext s") (simp_all add: setupAudioAnalyser_def call_defs Let_def)

lemma setupAudioPlayback_display:
  "micLevel (setupAudioPlayback e ms s) = micLevel s"
  "canvasElement (setupAudioPlayback e ms s) = canvasElement s"
  "analyser (setupAudioPlayback e ms s) = analyser s"
  by (simp_all add: setupAudioPlayback_def call_defs Let_def)

lemma caught_display:
  "micLevel (case r of Inr x \<Rightarrow> x | Inl x \<Rightarrow> x\<lparr>errorMessage := m, hasPermission := h\<rparr>) =
     micLevel (state_of r)"
  "canvasElement (case r of Inr x \<Rightarrow> x | Inl x \<Rightarrow> x\<lparr>errorMessage := m, hasPermission := h\<rparr>) =
     canvasElement (state_of r)"
  "analyser (case r of Inr x \<Rightarrow> x | Inl x \<Rightarrow> x\<lparr>errorMessage := m, hasPermission := h\<rparr>) =
     analyser (state_of r)"
  by (cases r; simp)+

lemma display_requestPermissions:
  assumes "display_inv s"
  shows "display_inv (requestPermissions e s)"
proof (rule display_kept [OF assms])
  show "micLevel (requestPermissions e s) = micLevel s"
    by (simp add: requestPermissions_def Let_def caught_display setupAudioAnalyser_keeps
          setupAudioPlayback_display record_call_def split: gum_result.split option.split)
  show "canvasElement (requestPermissions e s) = canvasElement s"
    by (simp add: requestPermissions_def Let_def caught_display setupAudioAnalyser_keeps
          setupAudioPlayback_display record_call_def split: gum_result.split option.split)
  show "analyser (requestPermissions e s) \<noteq> None" if "analyser s \<noteq> None"
    using that
    by (simp add: requestPermissions_def Let_def caught_display setupAudioAnalyser_analyser
          setupAudioPlayback_display record_call_def del: not_None_eq
          split: gum_result.split option.split)
qed

lemma display_stopStream: "display_inv s \<Longrightarrow> display_inv (stopStream s)"
  by (simp add: display_inv_def frame_def stopStream_vars)

lemma draw_fields:
  "analyser (draw e s) = analyser s"
  "analyser s = None \<Longrightarrow> draw e s = s"
  by (simp_all add: draw_def Let_def record_call_def split: option.split)

lemma display_draw: "display_inv s \<Longrightarrow> display_inv (draw e s)"
  by (cases "analyser s") (simp_all add: display_inv_def draw_fields)

lemma display_step:
  assumes "display_inv s"
  shows "display_inv (step e ev s)"
proof (cases ev)
  case Mount
  have "display_inv (getAudioDevices e s)"
    by (rule display_kept [OF assms])
       (simp_all add: getAudioDevices_def split: option.split list.split)
  then show ?thesis
    using Mount
    by (simp add: onMount_def startAudioLevelVisualization_def display_draw
          display_requestPermissions)
next
  case Destroy
  have "display_inv (onDestroy e s)"
    by (rule display_kept [OF display_stopStream [OF assms]])
       (simp_all add: onDestroy_def Let_def record_call_def split: option.split)
  with Destroy show ?thesis by simp
next
  case EnableClicked
  with assms show ?thesis by (simp add: display_requestPermissions)
next
  case StartClicked
  have "display_inv (startStream s)"
    by (rule display_kept [OF assms]) (simp_all add: startStream_def split: option.split)
  with StartClicked show ?thesis by simp
next
  case StopClicked
  with assms show ?thesis by (simp add: display_stopStream)
next
  case (MicSelected d)
  have "display_inv (s\<lparr>selectedMicId := d\<rparr>)"
    by (rule display_kept [OF assms]) simp_all
  then show ?thesis
    using MicSelected
    by (simp add: switchMicrophone_def display_requestPermissions display_stopStream)
next
  case (DelayMoved d)
  have "display_inv (s\<lparr>audioDelay := d\<rparr>)"
    by (rule display_kept [OF assms]) simp_all
  with DelayMoved show ?thesis by (simp add: display_updateAudioDelay)
next
  case AudioToggled
  with assms show ?thesis by (simp add: display_toggleAudio)
next
  case FrameDue
  have "display_inv (s\<lparr>scheduled := None\<rparr>)"
    by (rule display_kept [OF assms]) simp_all
  with FrameDue assms show ?thesis by (simp add: display_draw split: option.split)
next
  case (Rendered b)
  with assms show ?thesis
    by (auto simp: render_def display_inv_def frame_def split: option.splits)
qed

lemma reachable_display_inv: "reachable s \<Longrightarrow> display_inv s"
  by (induction rule: reachable.induct)
     (simp_all add: display_step, simp add: display_inv_def frame_def initial_def)

section \<open>Enabling twice\<close>

text \<open>
  C1. Claim: two successive enable requests without a disable leave exactly one active
  playback instance. The code does otherwise. The page calls \<^verbatim>\<open>requestPermissions\<close>
  on mount, and the button that calls it again is shown until \<^verbatim>\<open>hasPermission\<close> is
  set, which happens only after the await; so a second request can be made while the
  first is still pending. Before the await the function changes nothing, so the two
  requests amount to the body running twice, once per granted request. Each run of
  \<^verbatim>\<open>setupAudioPlayback\<close> creates and starts an element of its own and only overwrites
  the variable that held the first: afterwards two elements are playing, the variable
  refers to the second, and the first, which nothing refers to any more, still plays the
  first stream.
\<close>

theorem enabling_twice_plays_twice:
  "length (active_playbacks (step env_ok EnableClicked (step env_ok Mount initial))) = 2 \<and>
   audioElement (step env_ok EnableClicked (step env_ok Mount initial)) = Some 1 \<and>
   \<not> paused (audios (step env_ok EnableClicked (step env_ok Mount initial)) ! 0) \<and>
   srcObject (audios (step env_ok EnableClicked (step env_ok Mount initial)) ! 0) = Some 0"
  by (simp add: handler_defs call_defs concrete_defs active_playbacks_def active_playback_def
        Let_def)

section \<open>Toggling without an element or a stream\<close>

text \<open>
  C10. While the audio element or the media stream has not been created,
  \<^verbatim>\<open>toggleAudio\<close> returns at its first line: the whole state, the enabled flag and the
  delay included, is left as it was.
\<close>

theorem toggleAudio_without_element_or_stream:
  "audioElement s = None \<or> stream s = None \<Longrightarrow> toggleAudio e s = s"
  by (auto simp: toggleAudio_def split: option.splits)

theorem toggleAudio_without_element_or_stream_witness:
  "(audioElement initial = None \<or> stream initial = None) \<and> toggleAudio env_ok initial = initial"
  using toggleAudio_without_element_or_stream [of initial env_ok] by (simp add: initial_def)

section \<open>Stopping what is already stopped\<close>

text \<open>
  C8. Claim: a stop while playback is already stopped leaves every component of the
  state unchanged. The page stops playback in \<^verbatim>\<open>stopStream\<close>, whose lines 286--297
  run whatever the state of playback. On the page whose monitoring has been muted with
  the audio toggle, playback is stopped, yet the stop ends the live tracks of the stream,
  closes the running processing context and clears its variable.
\<close>

theorem stop_after_mute_counterexample:
  "reachable muted \<and> playback_stopped muted \<and>
   audioContext muted = Some 0 \<and> audioContext (stopStream muted) = None \<and>
   cstate (contexts muted ! 0) = Running \<and> cstate (contexts (stopStream muted) ! 0) = Closed \<and>
   \<not> all_ended (streams muted ! 0) \<and> all_ended (streams (stopStream muted) ! 0)"
proof -
  have r: "reachable muted"
    unfolding muted_def granted_def by (intro reachable.intros)
  have "playback_stopped muted \<and>
   audioContext muted = Some 0 \<and> audioContext (stopStream muted) = None \<and>
   cstate (contexts muted ! 0) = Running \<and> cstate (contexts (stopStream muted) ! 0) = Closed \<and>
   \<not> all_ended (streams muted ! 0) \<and> all_ended (streams (stopStream muted) ! 0)"
    by (simp add: muted_eq playback_stopped_def all_ended_def stopStream_def call_defs
          concrete_defs Let_def)
  with r show ?thesis by simp
qed

text \<open>
  C8, amended. \<^verbatim>\<open>stopStream\<close> never throws (no call in it does, so it is a total
  function on states). Called on a state it has produced, it changes no script variable
  and no browser object (the trace, which only records the calls, is left out). In every
  state whose playback is already stopped it leaves the audio elements, the element
  variable and the enabled flag as they are. It leaves every component unchanged
  under the further condition that the rest of what it releases is released already: the
  video detached, the tracks ended, no processing context referenced, the flags reset.
\<close>

theorem stopStream_idempotent:
  "untraced (stopStream (stopStream s)) = untraced (stopStream s) \<and>
   (playback_stopped s \<longrightarrow>
      audios (stopStream s) = audios s \<and> audioElement (stopStream s) = audioElement s \<and>
      audioEnabled (stopStream s) = audioEnabled s) \<and>
   (fully_stopped s \<longrightarrow> untraced (stopStream s) = untraced s)"
proof (intro conjI)
  show "untraced (stopStream (stopStream s)) = untraced (stopStream s)"
    by (cases "videoElement s"; cases "audioElement s"; cases "stream s"; cases "audioContext s")
       (simp_all add: stopStream_def untraced_def Let_def call_defs comp_def)
  show "playback_stopped s \<longrightarrow>
      audios (stopStream s) = audios s \<and> audioElement (stopStream s) = audioElement s \<and>
      audioEnabled (stopStream s) = audioEnabled s"
    by (cases "videoElement s"; cases "audioElement s"; cases "stream s"; cases "audioContext s")
       (simp_all add: stopStream_def playback_stopped_def Let_def call_defs upd_same)
  show "fully_stopped s \<longrightarrow> untraced (stopStream s) = untraced s"
    by (cases "videoElement s"; cases "audioElement s"; cases "stream s")
       (simp_all add: fully_stopped_def playback_stopped_def stopStream_def untraced_def Let_def
          call_defs upd_same video_same all_ended_same)
qed

theorem stopStream_idempotent_witness:
  "playback_stopped muted \<and> playback_stopped stopped \<and> fully_stopped stopped \<and>
   untraced (stopStream (stopStream muted)) = untraced (stopStream muted) \<and>
   audios (stopStream muted) = audios muted \<and>
   audioElement (stopStream muted) = Some 0 \<and>
   \<not> audioEnabled (stopStream muted) \<and>
   untraced (stopStream stopped) = untraced stopped"
proof -
  have m: "playback_stopped muted" "audioElement muted = Some 0" "\<not> audioEnabled muted"
    by (simp_all add: playback_stopped_def muted_eq)
  have s: "playback_stopped stopped" "fully_stopped stopped"
    by (simp_all add: fully_stopped_def playback_stopped_def all_ended_def stopped_eq)
  from stopStream_idempotent [of muted] stopStream_idempotent [of stopped] m s
  show ?thesis by simp
qed

section \<open>A rejected start\<close>

text \<open>
  C6. Playback is started for enabling in two places: \<^verbatim>\<open>setupAudioPlayback\<close>, run by
  \<^verbatim>\<open>requestPermissions\<close>, and the enabling branch of \<^verbatim>\<open>toggleAudio\<close>. When the
  promise of \<^verbatim>\<open>play()\<close> is rejected, both leave the enabled flag false; the rejection
  is taken by the \<^verbatim>\<open>catch\<close> callback, so the handlers return a state and raise nothing;
  and the page stays where enabling can be tried again: a later toggle whose
  \<^verbatim>\<open>play()\<close> resolves sets the flag.
\<close>

theorem rejected_play_leaves_disabled:
  assumes "\<not> play_resolves e"
  shows "(has_Audio e \<longrightarrow> \<not> audioEnabled (setupAudioPlayback e ms s)) \<and>
         (has_navigator e \<and> has_Audio e \<and> getUserMedia_result e = Granted \<longrightarrow>
            \<not> audioEnabled (step e EnableClicked s) \<and>
            (play_resolves e' \<longrightarrow>
               audioEnabled (step e' AudioToggled (step e EnableClicked s)))) \<and>
         (audioElement s \<noteq> None \<and> stream s \<noteq> None \<and> \<not> audioEnabled s \<longrightarrow>
            \<not> audioEnabled (step e AudioToggled s) \<and>
            (play_resolves e' \<longrightarrow>
               audioEnabled (step e' AudioToggled (step e AudioToggled s))))"
proof (intro conjI impI)
  assume "has_Audio e"
  then show "\<not> audioEnabled (setupAudioPlayback e ms s)"
    using assms by (simp add: setupAudioPlayback_vars)
next
  assume h: "has_navigator e \<and> has_Audio e \<and> getUserMedia_result e = Granted"
  then have r: "audioEnabled (requestPermissions e s) = play_resolves e"
      "audioElement (requestPermissions e s) = Some (length (audios s))"
      "stream (requestPermissions e s) = Some (length (streams s))"
    using requestPermissions_granted [of e s] by simp_all
  show "\<not> audioEnabled (step e EnableClicked s)"
    using r assms by simp
  assume "play_resolves e'"
  then show "audioEnabled (step e' AudioToggled (step e EnableClicked s))"
    using toggleAudio_enabling [of "requestPermissions e s" _ _ e'] r assms by simp
next
  assume h: "audioElement s \<noteq> None \<and> stream s \<noteq> None \<and> \<not> audioEnabled s"
  then obtain a st where v: "audioElement s = Some a" "stream s = Some st" "\<not> audioEnabled s"
    by auto
  have t: "audioEnabled (toggleAudio e s) = play_resolves e"
      "audioElement (toggleAudio e s) = Some a" "stream (toggleAudio e s) = Some st"
    using toggleAudio_enabling [OF v, of e] by simp_all
  show "\<not> audioEnabled (step e AudioToggled s)"
    using t assms by simp
  assume "play_resolves e'"
  then show "audioEnabled (step e' AudioToggled (step e AudioToggled s))"
    using toggleAudio_enabling [of "toggleAudio e s" a st e'] t assms by simp
qed

theorem rejected_play_leaves_disabled_witness:
  "\<not> play_resolves env_blocked \<and> has_navigator env_blocked \<and> has_Audio env_blocked \<and>
   getUserMedia_result env_blocked = Granted \<and> play_resolves env_ok \<and>
   audioElement blocked \<noteq> None \<and> stream blocked \<noteq> None \<and> \<not> audioEnabled blocked \<and>
   \<not> audioEnabled (setupAudioPlayback env_blocked 0 blocked) \<and>
   \<not> audioEnabled (step env_blocked EnableClicked blocked) \<and>
   audioEnabled (step env_ok AudioToggled (step env_blocked EnableClicked blocked)) \<and>
   \<not> audioEnabled (step env_blocked AudioToggled blocked) \<and>
   audioEnabled (step env_ok AudioToggled (step env_blocked AudioToggled blocked))"
proof -
  have e: "\<not> play_resolves env_blocked" "has_navigator env_blocked" "has_Audio env_blocked"
      "getUserMedia_result env_blocked = Granted" "play_resolves env_ok"
    by (simp_all add: env_blocked_def env_ok_def)
  have b: "audioElement blocked \<noteq> None" "stream blocked \<noteq> None" "\<not> audioEnabled blocked"
    by (simp_all add: blocked_eq)
  from rejected_play_leaves_disabled [OF e(1), of 0 blocked env_ok] e b
  show ?thesis by blast
qed

section \<open>The output of the delay stage\<close>

text \<open>
  C5. \<^verbatim>\<open>updateAudioDelay\<close> builds the playable stream. With a delay of 0 the element
  gets the raw stream itself and no context, node or stream is created. With a positive
  delay, on a browser that has \<^verbatim>\<open>AudioContext\<close> and throws nowhere, the element gets the
  stream of the destination node of a fresh running context whose nodes are a delay of
  \<open>audioDelay / 1000\<close> seconds (node 0), the source of the raw stream (node 1) and the
  destination (node 2), connected source to delay, delay to destination and, in parallel,
  source to destination.
\<close>

theorem updateAudioDelay_output:
  assumes "audioElement s = Some a" "a < length (audios s)" "stream s = Some st"
  shows "(audioDelay s = 0 \<longrightarrow>
            srcObject (audios (updateAudioDelay e s) ! a) = Some st \<and>
            contexts (updateAudioDelay e s) = contexts s \<and>
            audioContext (updateAudioDelay e s) = audioContext s \<and>
            streams (updateAudioDelay e s) = streams s) \<and>
         (audioDelay s > 0 \<and> has_AudioContext e \<and> (\<forall>x. \<not> throws e x) \<longrightarrow>
            (let s' = updateAudioDelay e s;
                 c = (if audioContext s = None then Suc (length (contexts s))
                      else length (contexts s));
                 out = length (streams s)
             in audioContext s' = Some c \<and>
                cstate (contexts s' ! c) = Running \<and>
                nodes (contexts s' ! c) =
                  [DelayNode (real_of_int (audioDelay s) / 1000), MediaStreamSource st,
                   MediaStreamDestination out] \<and>
                connections (contexts s' ! c) = [(1, 0), (0, 2), (1, 2)] \<and>
                streams s' = streams s @ [\<lparr>tracks = [\<lparr>kind = AudioTrack, readyState = Live\<rparr>]\<rparr>] \<and>
                srcObject (audios s' ! a) = Some out))"
proof -
  have zero: "srcObject (audios (updateAudioDelay e s) ! a) = Some st \<and>
            contexts (updateAudioDelay e s) = contexts s \<and>
            audioContext (updateAudioDelay e s) = audioContext s \<and>
            streams (updateAudioDelay e s) = streams s"
    if "audioDelay s = 0"
    using assms that by (simp add: updateAudioDelay_def call_defs Let_def nth_upd)
  have pos: "(let s' = updateAudioDelay e s;
                 c = (if audioContext s = None then Suc (length (contexts s))
                      else length (contexts s));
                 out = length (streams s)
             in audioContext s' = Some c \<and>
                cstate (contexts s' ! c) = Running \<and>
                nodes (contexts s' ! c) =
                  [DelayNode (real_of_int (audioDelay s) / 1000), MediaStreamSource st,
                   MediaStreamDestination out] \<and>
                connections (contexts s' ! c) = [(1, 0), (0, 2), (1, 2)] \<and>
                streams s' = streams s @ [\<lparr>tracks = [\<lparr>kind = AudioTrack, readyState = Live\<rparr>]\<rparr>] \<and>
                srcObject (audios s' ! a) = Some out)"
    if "audioDelay s > 0 \<and> has_AudioContext e \<and> (\<forall>x. \<not> throws e x)"
    using assms that
    by (cases "audioContext s")
       (simp_all add: updateAudioDelay_def delay_graph_def delay_nodes_def call_defs Let_def
          nth_upd nth_append new_context_def)
  from zero pos show ?thesis by blast
qed

theorem updateAudioDelay_output_witness:
  "audioElement blocked = Some 0 \<and> 0 < length (audios blocked) \<and> stream blocked = Some 0 \<and>
   audioDelay blocked = 0 \<and> has_AudioContext env_ok \<and> (\<forall>x. \<not> throws env_ok x) \<and>
   srcObject (audios (updateAudioDelay env_ok blocked) ! 0) = Some 0 \<and>
   contexts (updateAudioDelay env_ok blocked) = contexts blocked \<and>
   audioContext (updateAudioDelay env_ok (blocked\<lparr>audioDelay := 300\<rparr>)) = Some 1 \<and>
   nodes (contexts (updateAudioDelay env_ok (blocked\<lparr>audioDelay := 300\<rparr>)) ! 1) =
     [DelayNode (3 / 10), MediaStreamSource 0, MediaStreamDestination 1] \<and>
   connections (contexts (updateAudioDelay env_ok (blocked\<lparr>audioDelay := 300\<rparr>)) ! 1) =
     [(1, 0), (0, 2), (1, 2)] \<and>
   srcObject (audios (updateAudioDelay env_ok (blocked\<lparr>audioDelay := 300\<rparr>)) ! 0) = Some 1"
proof -
  have b: "audioElement blocked = Some 0" "0 < length (audios blocked)" "stream blocked = Some 0"
      "audioDelay blocked = 0" "audioContext blocked = Some 0" "length (contexts blocked) = 1"
      "length (streams blocked) = 1"
    by (simp_all add: blocked_eq)
  have e: "has_AudioContext env_ok" "\<forall>x. \<not> throws env_ok x"
    by (simp_all add: env_ok_def)
  from updateAudioDelay_output [of blocked 0 0 env_ok] b
  have z: "srcObject (audios (updateAudioDelay env_ok blocked) ! 0) = Some 0"
      "contexts (updateAudioDelay env_ok blocked) = contexts blocked"
    by simp_all
  from updateAudioDelay_output [of "blocked\<lparr>audioDelay := 300\<rparr>" 0 0 env_ok] b e
  have d: "audioContext (updateAudioDelay env_ok (blocked\<lparr>audioDelay := 300\<rparr>)) = Some 1 \<and>
   nodes (contexts (updateAudioDelay env_ok (blocked\<lparr>audioDelay := 300\<rparr>)) ! 1) =
     [DelayNode (3 / 10), MediaStreamSource 0, MediaStreamDestination 1] \<and>
   connections (contexts (updateAudioDelay env_ok (blocked\<lparr>audioDelay := 300\<rparr>)) ! 1) =
     [(1, 0), (0, 2), (1, 2)] \<and>
   srcObject (audios (updateAudioDelay env_ok (blocked\<lparr>audioDelay := 300\<rparr>)) ! 0) = Some 1"
    by (simp add: Let_def)
  from b e z d show ?thesis by simp
qed

section \<open>Moving the delay while enabled\<close>




section \<open>Teardown\<close>

text \<open>
  C4. Claim: teardown stops playback, then closes the processing context, then stops
  the tracks, then releases the analyser, then halts the refresh loop. The code stops the
  tracks before it closes the context and never releases the analyser: on the page after
  a granted request the close of context 0 does not come before the stop of track 0 of
  stream 0, it comes after it, and the analyser variable is still set afterwards.
\<close>

theorem teardown_order_counterexample:
  "\<not> before (CtxClose 0) (TrackStop 0 0) (calls_of granted (step env_ok Destroy granted)) \<and>
   before (TrackStop 0 0) (CtxClose 0) (calls_of granted (step env_ok Destroy granted)) \<and>
   analyser (step env_ok Destroy granted) \<noteq> None"
  by (simp add: granted_eq onDestroy_def stopStream_def call_defs concrete_defs Let_def
        calls_of_def)

text \<open>
  C4, amended. From every state, \<^verbatim>\<open>onDestroy\<close> makes exactly these calls, in this
  order: detach the video; pause, rewind and detach the audio element; stop each track of
  the stream once; close the processing context once (and clear the variable); cancel the
  animation frame once. Each group is there when its variable is set. None of the calls
  throws. The analyser variable is left as it was.
\<close>

theorem teardown_order:
  "calls_of s (onDestroy e s) =
     (case videoElement s of None \<Rightarrow> [] | Some v \<Rightarrow> [VideoPause, VideoSetSrc None]) @
     (case audioElement s of
        None \<Rightarrow> []
      | Some a \<Rightarrow> [AudioPause a, AudioSeek a 0, AudioSetSrc a None]) @
     (case stream s of
        None \<Rightarrow> []
      | Some st \<Rightarrow> map (TrackStop st) [0..<length (tracks (streams s ! st))]) @
     (case audioContext s of None \<Rightarrow> [] | Some c \<Rightarrow> [CtxClose c]) @
     (case animationFrame s of
        None \<Rightarrow> []
      | Some h \<Rightarrow> if h \<noteq> 0 \<and> has_cancelAnimationFrame e then [CancelFrame h] else []) \<and>
   audioContext (onDestroy e s) = None \<and>
   \<not> audioEnabled (onDestroy e s) \<and>
   analyser (onDestroy e s) = analyser s"
  by (cases "animationFrame s")
     (simp_all add: onDestroy_def Let_def calls_of_def trace_stopStream stopStream_vars
        record_call_def)

section \<open>Switching the microphone\<close>

text \<open>
  C7. Claim: from every state a device switch stops the old stream and then acquires a
  new one. \<^verbatim>\<open>switchMicrophone\<close> does nothing unless a stream has been acquired before:
  on the initial page a change of the selection makes no call at all, so no acquisition
  begins.
\<close>

theorem switch_without_stream_counterexample:
  "trace (step env_ok (MicSelected ''mic-b'') initial) = [] \<and>
   stream (step env_ok (MicSelected ''mic-b'') initial) = None"
  by (simp add: switchMicrophone_def initial_def)

text \<open>
  C7, amended. In every state that holds a stream, \<^verbatim>\<open>switchMicrophone\<close> is
  \<^verbatim>\<open>stopStream\<close> followed by \<^verbatim>\<open>requestPermissions\<close>. All calls of the stop come before
  \<^verbatim>\<open>getUserMedia\<close>, and after it come only calls that set the new stream up. In the
  state in which \<^verbatim>\<open>getUserMedia\<close> is called every track of the old stream has ended,
  the audio element is paused and detached, the processing context is closed and its
  variable cleared, and the enabled flag is false.
\<close>

theorem switchMicrophone_stops_then_acquires:
  assumes "stream s = Some st" "st < length (streams s)" "has_navigator e"
  shows "switchMicrophone e s = requestPermissions e (stopStream s) \<and>
         calls_of s (switchMicrophone e s) =
           (case videoElement s of None \<Rightarrow> [] | Some v \<Rightarrow> [VideoPause, VideoSetSrc None]) @
           (case audioElement s of
              None \<Rightarrow> []
            | Some a \<Rightarrow> [AudioPause a, AudioSeek a 0, AudioSetSrc a None]) @
           map (TrackStop st) [0..<length (tracks (streams s ! st))] @
           (case audioContext s of None \<Rightarrow> [] | Some c \<Rightarrow> [CtxClose c]) @
           [GetUserMedia (if selectedMicId s \<noteq> [] then Some (selectedMicId s) else None)] @
           (case getUserMedia_result e of
              Rejected err \<Rightarrow> []
            | Granted \<Rightarrow>
                (case videoElement s of
                   None \<Rightarrow> []
                 | Some v \<Rightarrow> [VideoSetSrc (Some (length (streams s)))]) @
                (if has_Audio e
                 then [AudioNew (length (audios s)),
                       AudioSetSrc (length (audios s)) (Some (length (streams s))),
                       AudioPlay (length (audios s))]
                 else []) @
                (if has_AudioContext e \<and> \<not> throws e NewAudioContext
                 then [CtxNew (length (contexts s))] else [])) \<and>
         all_ended (streams (stopStream s) ! st) \<and>
         audioContext (stopStream s) = None \<and>
         \<not> audioEnabled (stopStream s) \<and>
         (case audioContext s of
            None \<Rightarrow> True
          | Some c \<Rightarrow> c < length (contexts s) \<longrightarrow> cstate (contexts (stopStream s) ! c) = Closed) \<and>
         (case audioElement s of
            None \<Rightarrow> True
          | Some a \<Rightarrow> a < length (audios s) \<longrightarrow>
              paused (audios (stopStream s) ! a) \<and> srcObject (audios (stopStream s) ! a) = None)"
proof -
  have 1: "switchMicrophone e s = requestPermissions e (stopStream s)"
    using assms by (simp add: switchMicrophone_def)
  have 2: "all_ended (streams (stopStream s) ! st)"
    using stopStream_objects(1) [OF assms(1,2)]
    by (simp add: all_ended_def list_all_iff stop_track_def)
  have 3: "(case audioContext s of
            None \<Rightarrow> True
          | Some c \<Rightarrow> c < length (contexts s) \<longrightarrow> cstate (contexts (stopStream s) ! c) = Closed)"
    by (simp add: stopStream_objects(3) split: option.split)
  have 4: "(case audioElement s of
            None \<Rightarrow> True
          | Some a \<Rightarrow> a < length (audios s) \<longrightarrow>
              paused (audios (stopStream s) ! a) \<and> srcObject (audios (stopStream s) ! a) = None)"
    by (simp add: stopStream_objects(2) split: option.split)
  have 5: "calls_of s (switchMicrophone e s) =
           (case videoElement s of None \<Rightarrow> [] | Some v \<Rightarrow> [VideoPause, VideoSetSrc None]) @
           (case audioElement s of
              None \<Rightarrow> []
            | Some a \<Rightarrow> [AudioPause a, AudioSeek a 0, AudioSetSrc a None]) @
           map (TrackStop st) [0..<length (tracks (streams s ! st))] @
           (case audioContext s of None \<Rightarrow> [] | Some c \<Rightarrow> [CtxClose c]) @
           [GetUserMedia (if selectedMicId s \<noteq> [] then Some (selectedMicId s) else None)] @
           (case getUserMedia_result e of
              Rejected err \<Rightarrow> []
            | Granted \<Rightarrow>
                (case videoElement s of
                   None \<Rightarrow> []
                 | Some v \<Rightarrow> [VideoSetSrc (Some (length (streams s)))]) @
                (if has_Audio e
                 then [AudioNew (length (audios s)),
                       AudioSetSrc (length (audios s)) (Some (length (streams s))),
                       AudioPlay (length (audios s))]
                 else []) @
                (if has_AudioContext e \<and> \<not> throws e NewAudioContext
                 then [CtxNew (length (contexts s))] else []))"
    using assms
    by (cases "getUserMedia_result e"; cases "videoElement s")
       (simp_all add: 1 calls_of_def trace_requestPermissions trace_stopStream stopStream_vars)
  from 1 2 3 4 5 show ?thesis by (simp add: stopStream_vars)
qed

theorem switchMicrophone_stops_then_acquires_witness:
  "stream granted = Some 0 \<and> 0 < length (streams granted) \<and> has_navigator env_ok \<and>
   calls_of granted (switchMicrophone env_ok granted) =
     [AudioPause 0, AudioSeek 0 0, AudioSetSrc 0 None, TrackStop 0 0, TrackStop 0 1, CtxClose 0,
      GetUserMedia None, AudioNew 1, AudioSetSrc 1 (Some 1), AudioPlay 1, CtxNew 1] \<and>
   all_ended (streams (stopStream granted) ! 0) \<and>
   cstate (contexts (stopStream granted) ! 0) = Closed \<and>
   paused (audios (stopStream granted) ! 0) \<and>
   srcObject (audios (stopStream granted) ! 0) = None"
proof -
  have g: "stream granted = Some 0" "0 < length (streams granted)"
    by (simp_all add: granted_eq)
  have e: "has_navigator env_ok"
    by (simp add: env_ok_def)
  have v: "videoElement granted = None" "audioElement granted = Some 0"
      "audioContext granted = Some 0" "selectedMicId granted = []"
      "length (tracks (streams granted ! 0)) = 2" "length (audios granted) = 1"
      "length (streams granted) = 1" "length (contexts granted) = 1"
    by (simp_all add: granted_eq)
  have o: "getUserMedia_result env_ok = Granted" "has_Audio env_ok" "has_AudioContext env_ok"
      "\<not> throws env_ok NewAudioContext"
    by (simp_all add: env_ok_def)
  have u: "[0..<2] = [0, Suc 0]"
    by (simp add: upt_rec)
  from conjunct2 [OF switchMicrophone_stops_then_acquires [OF g e]] g e v o u
  show ?thesis by simp
qed

section \<open>Closing before building\<close>

text \<open>
  C3. In every state the page can reach, whatever the delay: read from the start, the
  trace never shows a context being created while another is live, so a context built
  earlier is closed before the next is built and at most one is live at any time; at
  most one context of the store is not closed; after a delay update followed by
  \<^verbatim>\<open>stopStream\<close> (build, then release) no context is live; and \<^verbatim>\<open>close()\<close> on a
  context that is already closed changes nothing.
\<close>

theorem one_live_context:
  assumes "reachable s"
  shows "one_live None (trace s) \<and>
         length (live_contexts s) \<le> 1 \<and>
         live_contexts (step e' StopClicked (step e (DelayMoved d) s)) = [] \<and>
         (cstate (contexts s ! c) = Closed \<longrightarrow> untraced (ctx_close c s) = untraced s)"
proof -
  have i: "ctx_inv s"
    using assms by (rule reachable_ctx_inv)
  have "reachable (step e' StopClicked (step e (DelayMoved d) s))"
    using assms by (intro reachable.after_step)
  then have j: "ctx_inv (step e' StopClicked (step e (DelayMoved d) s))"
    by (rule reachable_ctx_inv)
  have k: "audioContext (step e' StopClicked (step e (DelayMoved d) s)) = None"
    by (simp add: stopStream_vars)
  have z: "untraced (ctx_close c s) = untraced s" if "cstate (contexts s ! c) = Closed"
    using that by (simp add: ctx_close_def record_call_def untraced_def upd_same)
  from ctx_invD(3) [OF i] live_contexts_bound(1) [OF i] live_contexts_bound(2) [OF j k] z
  show ?thesis by blast
qed

theorem one_live_context_witness:
  "reachable granted \<and> reachable stopped \<and>
   one_live None (trace granted) \<and>
   length (live_contexts granted) \<le> 1 \<and>
   live_contexts (step env_ok StopClicked (step env_ok (DelayMoved 300) granted)) = [] \<and>
   cstate (contexts stopped ! 0) = Closed \<and>
   untraced (ctx_close 0 stopped) = untraced stopped"
proof -
  have g: "reachable granted"
    unfolding granted_def by (intro reachable.intros)
  have s: "reachable stopped"
    unfolding stopped_def by (intro reachable.intros g)
  have c: "cstate (contexts stopped ! 0) = Closed"
    by (simp add: stopped_eq)
  from one_live_context [OF g, of env_ok env_ok 300 0]
    one_live_context [OF s, of env_ok env_ok 300 0] g s c
  show ?thesis by blast
qed

section \<open>Sampling without an analyser\<close>

text \<open>
  C9. The frame is sampled by \<^verbatim>\<open>draw\<close>. In every state the page can reach in which no
  analyser has been attached, \<^verbatim>\<open>draw\<close> returns at its guard without failing and
  without changing anything, also when the browser runs it as the frame callback, and
  the frame on display is the zero frame: the level is 0 and the canvas shows no bar, so
  no frequency bin other than zero.
\<close>

theorem draw_without_analyser:
  assumes "reachable s" "analyser s = None"
  shows "draw e s = s \<and> frame (draw e s) = (0, []) \<and> frame (step e FrameDue s) = (0, [])"
proof -
  have d: "draw e s = s"
    using assms(2) by (simp add: draw_fields)
  have f: "frame s = (0, [])"
    using reachable_display_inv [OF assms(1)] assms(2) by (simp add: display_inv_def)
  have "reachable (step e FrameDue s)"
    using assms(1) by (rule reachable.after_step)
  moreover have "analyser (step e FrameDue s) = None"
    using assms(2) by (simp add: draw_fields split: option.split)
  ultimately have g: "frame (step e FrameDue s) = (0, [])"
    using reachable_display_inv [of "step e FrameDue s"] by (simp add: display_inv_def)
  from d f g show ?thesis by simp
qed

theorem draw_without_analyser_witness:
  "reachable denied \<and> analyser denied = None \<and>
   draw env_ok denied = denied \<and> frame (draw env_ok denied) = (0, []) \<and>
   frame (step env_ok FrameDue denied) = (0, [])"
proof -
  have r: "reachable denied"
    unfolding denied_def by (intro reachable.intros)
  have a: "analyser denied = None"
    by (simp add: denied_eq)
  from draw_without_analyser [OF r a, of env_ok] r a show ?thesis by blast
qed

end
